theory Spec2Isabelle
  imports Complex_Main "HOL-Library.Sublist"
begin

section \<open>Job registry and watchdog (LMSDownloaderHandler.py)\<close>

text \<open>
  Wall-clock times (\<^verbatim>\<open>time.time()\<close>, the configured timeouts) are Python floats; they are
  modelled as reals. All clock reads made during one pass of a loop return the same
  instant \<open>now\<close>.
\<close>

datatype py_error = ValueError

record config =
  process_timeout :: real
  send_messages_interval :: real
  max_log_symbols :: int
  bot_api_token :: string

text \<open>
  One entry of \<^verbatim>\<open>self.lms_downloader_processes\<close>: the tuple
  \<^verbatim>\<open>(time_started, process, interrupt_event)\<close>. The process object is modelled by its pid,
  what \<^verbatim>\<open>is_alive()\<close> answers, and whether \<^verbatim>\<open>kill()\<close> has been called on it;
  the event by what \<^verbatim>\<open>is_set()\<close> answers.
\<close>

record job =
  time_started :: real
  pid :: nat
  alive :: bool
  interrupt_event :: bool
  killed :: bool

definition EXIT_WAIT_TIME :: real where
  "EXIT_WAIT_TIME = 5"

text \<open>
  Python's \<^verbatim>\<open>list.remove(x)\<close>: deletes the first element equal to \<open>x\<close>, raises
  \<^verbatim>\<open>ValueError\<close> when there is none.
\<close>

definition list_remove :: "'a list \<Rightarrow> 'a \<Rightarrow> py_error + 'a list" where
  "list_remove xs x = (if x \<in> set xs then Inr (remove1 x xs) else Inl ValueError)"

text \<open>Lines 405-418: the timeout check of one job whose process is alive.\<close>

definition check_timeout :: "config \<Rightarrow> real \<Rightarrow> job \<Rightarrow> job" where
  "check_timeout cfg now j =
     (if now - time_started j \<ge> process_timeout cfg then
        let j1 = (if \<not> interrupt_event j then j\<lparr>interrupt_event := True\<rparr> else j)
        in (if now - time_started j \<ge> process_timeout cfg + EXIT_WAIT_TIME
            then j1\<lparr>killed := True\<rparr> else j1)
      else j)"

text \<open>
  Lines 398-418: \<^verbatim>\<open>for ... in self.lms_downloader_processes\<close>. Python's list iterator
  keeps an index \<open>i\<close> into the list object, yields \<open>ps ! i\<close> while \<open>i < len(ps)\<close>
  and then advances; the body removes from the same list object while it is iterated.
\<close>

function processes_for_loop :: "config \<Rightarrow> real \<Rightarrow> nat \<Rightarrow> job list \<Rightarrow> py_error + job list" where
  "processes_for_loop cfg now i ps =
     (if i < length ps then
        (if \<not> alive (ps ! i) then
           (case list_remove ps (ps ! i) of
              Inl e \<Rightarrow> Inl e
            | Inr ps' \<Rightarrow> processes_for_loop cfg now (Suc i) ps')
         else processes_for_loop cfg now (Suc i) (ps[i := check_timeout cfg now (ps ! i)]))
      else Inr ps)"
  by pat_completeness auto
termination
  by (relation "measure (\<lambda>(cfg, now, i, ps). length ps - i)")
     (auto simp: list_remove_def length_remove1 split: if_splits)

text \<open>
  Lines 396-449: one pass of the watchdog's \<^verbatim>\<open>while True\<close>. The state is the list, the
  \<^verbatim>\<open>exit_timer\<close> and whether the loop has left through \<^verbatim>\<open>break\<close>.
\<close>

record watchdog_state =
  lms_downloader_processes :: "job list"
  exit_timer :: real
  finished :: bool

definition processes_watchdog_iteration ::
  "config \<Rightarrow> bool \<Rightarrow> real \<Rightarrow> watchdog_state \<Rightarrow> py_error + watchdog_state" where
  "processes_watchdog_iteration cfg enabled now s =
     (case processes_for_loop cfg now 0 (lms_downloader_processes s) of
        Inl e \<Rightarrow> Inl e
      | Inr ps \<Rightarrow>
          if \<not> enabled then
            (if length ps > 0 then
               let (t, ps1) =
                     (if exit_timer s = 0
                      then (now, map (\<lambda>j. j\<lparr>interrupt_event := True\<rparr>) ps)
                      else (exit_timer s, ps))
               in (if now - t > EXIT_WAIT_TIME
                   then Inr \<lparr>lms_downloader_processes = map (\<lambda>j. j\<lparr>killed := True\<rparr>) ps1,
                             exit_timer = t, finished = True\<rparr>
                   else Inr \<lparr>lms_downloader_processes = ps1, exit_timer = t, finished = False\<rparr>)
             else Inr \<lparr>lms_downloader_processes = ps, exit_timer = exit_timer s, finished = True\<rparr>)
          else Inr \<lparr>lms_downloader_processes = ps, exit_timer = exit_timer s, finished = False\<rparr>)"


section \<open>Sending messages (send_safe in BotHandler.py)\<close>

text \<open>
  An instance of \<^verbatim>\<open>Exception\<close> or of a class derived from it (class name and message):
  what \<^verbatim>\<open>except Exception\<close> catches.
\<close>

datatype py_exception = PyException string string

text \<open>
  What the awaited call of the messaging library raises when it does not return: an
  instance of \<^verbatim>\<open>Exception\<close>, or an instance of a class that derives from
  \<^verbatim>\<open>BaseException\<close> only (\<^verbatim>\<open>asyncio.CancelledError\<close>, \<^verbatim>\<open>KeyboardInterrupt\<close>,
  \<^verbatim>\<open>SystemExit\<close>; its class name), which \<^verbatim>\<open>except Exception\<close> does not catch.
\<close>

datatype py_raised = Exception_instance py_exception | BaseException_only string

datatype 'c bot = Context_bot 'c | Token_bot string

text \<open>
  The two calls of the messaging library that \<^verbatim>\<open>send_safe\<close> awaits, with their
  arguments: bot, chat id, (message id,) text, (reply-to id,) reply markup, parse mode.
\<close>

datatype ('c, 'm) tg_call =
    Send_message "'c bot" int string "nat option" "'m option" "string option"
  | Edit_message_text "'c bot" int nat string "'m option" "string option"

datatype ('c, 'm) effect =
    Tg "('c, 'm) tg_call"
  | Logging_error_sending string int
  | Time_sleep real
  | Logging_queue_put string
  | Propagates string

type_synonym ('c, 'm) transport = "('c, 'm) tg_call \<Rightarrow> py_raised + nat"

definition MARKDOWN_ESCAPE :: "char list" where
  "MARKDOWN_ESCAPE = ''_*[]()~>#+-=|{}.!''"

definition backslash :: char where
  "backslash = CHR 0x5C"

text \<open>\<^verbatim>\<open>str.replace\<close> for a pattern of one character and for a pattern of two.\<close>

definition replace_char :: "char \<Rightarrow> string \<Rightarrow> string \<Rightarrow> string" where
  "replace_char c r s = concat (map (\<lambda>x. if x = c then r else [x]) s)"

fun replace_pair :: "char \<Rightarrow> char \<Rightarrow> string \<Rightarrow> string \<Rightarrow> string" where
  "replace_pair a b r (x # y # s) =
     (if x = a \<and> y = b then r @ replace_pair a b r s else x # replace_pair a b r (y # s))"
| "replace_pair a b r s = s"

definition escape_markdown :: "string \<Rightarrow> string" where
  "escape_markdown text = foldl (\<lambda>t c. replace_char c [backslash, c] t) text MARKDOWN_ESCAPE"

definition unescape_whitespace :: "string \<Rightarrow> string" where
  "unescape_whitespace text =
     replace_pair backslash CHR ''t'' [CHR 0x09] (replace_pair backslash CHR ''n'' [CHR 0x0A] text)"

text \<open>
  Lines 109-150 of \<^verbatim>\<open>send_safe\<close>: the text after escaping, and the library call that
  is awaited, by the branch taken. \<^verbatim>\<open>not edit_message_id\<close> holds for \<^verbatim>\<open>None\<close> and
  for \<open>0\<close>; \<^verbatim>\<open>if context\<close> holds for a context object.
\<close>

definition send_safe_text :: "bool \<Rightarrow> string \<Rightarrow> string" where
  "send_safe_text parse_markdown text = (if parse_markdown then escape_markdown text else text)"

definition send_safe_call ::
  "int \<Rightarrow> string \<Rightarrow> 'c option \<Rightarrow> nat option \<Rightarrow> 'm option \<Rightarrow> bool \<Rightarrow> nat option \<Rightarrow> string \<Rightarrow>
   ('c, 'm) tg_call" where
  "send_safe_call chat_id text context reply_to_message_id reply_markup parse_markdown
     edit_message_id bot_api_token' =
     (let text1 = send_safe_text parse_markdown text;
          parse_mode = (if parse_markdown then Some ''MarkdownV2'' else None);
          the_bot = (case context of Some c \<Rightarrow> Context_bot c | None \<Rightarrow> Token_bot bot_api_token');
          send = Send_message the_bot chat_id (unescape_whitespace text1) reply_to_message_id
                   reply_markup parse_mode
      in case edit_message_id of
           None \<Rightarrow> send
         | Some m \<Rightarrow>
             if m = 0 then send
             else Edit_message_text the_bot chat_id m (unescape_whitespace text1)
                    reply_markup parse_mode)"

text \<open>
  \<^verbatim>\<open>send_safe\<close> (lines 90-154): the \<^verbatim>\<open>try\<close> statement around the call. \<open>transport\<close>
  is what the awaited library call does: \<open>Inr m\<close> when it returns a message whose
  \<^verbatim>\<open>message_id\<close> is \<open>m\<close>, \<open>Inl r\<close> when it raises \<open>r\<close>. The first component of the
  result is \<open>Inr v\<close> when \<^verbatim>\<open>send_safe\<close> returns \<open>v\<close> and \<open>Inl b\<close> when the exception
  \<open>b\<close> propagates out of it: the handler catches instances of \<^verbatim>\<open>Exception\<close>, logs
  them and lets the function return \<^verbatim>\<open>None\<close>; nothing catches the others. The second
  component is the effects, in order.
\<close>

definition send_safe ::
  "('c, 'm) transport \<Rightarrow> int \<Rightarrow> string \<Rightarrow> 'c option \<Rightarrow> nat option \<Rightarrow> 'm option \<Rightarrow> bool \<Rightarrow>
   nat option \<Rightarrow> string \<Rightarrow> (string + nat option) \<times> ('c, 'm) effect list" where
  "send_safe transport chat_id text context reply_to_message_id reply_markup parse_markdown
     edit_message_id bot_api_token' =
     (let call = send_safe_call chat_id text context reply_to_message_id reply_markup
                   parse_markdown edit_message_id bot_api_token'
      in case transport call of
           Inr message_id \<Rightarrow> (Inr (Some message_id), [Tg call])
         | Inl (Exception_instance e) \<Rightarrow>
             (Inr None, [Tg call,
                         Logging_error_sending
                           (unescape_whitespace (send_safe_text parse_markdown text)) chat_id])
         | Inl (BaseException_only b) \<Rightarrow> (Inl b, [Tg call]))"

section \<open>Log relay (logs_to_message_loop in LMSDownloaderHandler.py)\<close>

text \<open>
  What \<^verbatim>\<open>internal_logging_queue_.get(block=False)\<close> can return: \<^verbatim>\<open>None\<close>, a
  \<^verbatim>\<open>LogRecord\<close> (with its message), a \<^verbatim>\<open>KeyboardInterrupt\<close>, or a value of any other
  type (the supervisor puts the exception it caught; the string is its text).
\<close>

datatype queue_item = Q_None | Q_LogRecord string | Q_KeyboardInterrupt | Q_Other string

datatype inline_button = InlineKeyboardButton string nat

text \<open>
  The message templates (loaded from the messages file), the ignore prefix of the
  \<^verbatim>\<open>LoggingHandler\<close> module and the pid are parameters. \<open>format_message key rows remaining\<close> stands for
  \<^verbatim>\<open>messages_[key].format(rows, remaining)\<close> (\<open>remaining\<close> only for the progress
  template), \<open>log_message_format n entry\<close> for
  \<^verbatim>\<open>messages_["log_message_format"].format(line_n=n, log_entry=entry)\<close>.
\<close>

record relay_env =
  format_message :: "string \<Rightarrow> string \<Rightarrow> real option \<Rightarrow> string"
  log_message_format :: "nat \<Rightarrow> string \<Rightarrow> string"
  btn_abort :: string
  TELEGRAM_LOGS_IGNORE_PREFIX :: string
  chat_id' :: int
  time_started' :: real
  getpid :: nat

record relay_state =
  log_rows :: string
  message_id :: "nat option"
  last_time_sent :: real
  line_n :: nat

text \<open>
  What one pass of the loop observes: the result of the non-blocking \<^verbatim>\<open>get\<close>
  (\<open>None\<close> for \<^verbatim>\<open>queue.Empty\<close>), the clock, and what the messaging call does if a
  message is sent in this pass: it returns a message id or fails with an instance of
  \<^verbatim>\<open>Exception\<close>. The loop runs in a thread of its own and drives the call with
  \<^verbatim>\<open>run_until_complete\<close>: nothing cancels the call, and interrupts are delivered to the
  main thread.
\<close>

record relay_poll =
  queue_get :: "queue_item option"
  clock :: real
  transport' :: "(unit, inline_button list list) tg_call \<Rightarrow> py_exception + nat"

text \<open>The messaging call of a poll, as the transport that \<^verbatim>\<open>send_safe\<close> awaits.\<close>

definition poll_transport :: "relay_poll \<Rightarrow> (unit, inline_button list list) transport" where
  "poll_transport p = (\<lambda>c. case transport' p c of Inl e \<Rightarrow> Inl (Exception_instance e) | Inr m \<Rightarrow> Inr m)"

text \<open>
  Python's slice \<^verbatim>\<open>s[-n:]\<close> for an integer \<open>n\<close>: the start index \<open>-n\<close> is taken from
  the end when negative (clipped at 0), and from the front otherwise (clipped at the
  length); so \<^verbatim>\<open>s[-0:]\<close> is all of \<open>s\<close>.
\<close>

definition slice_from_neg :: "int \<Rightarrow> 'a list \<Rightarrow> 'a list" where
  "slice_from_neg n s =
     (let len = int (length s); start = - n;
          start' = (if start < 0 then max (start + len) 0 else min start len)
      in drop (nat start') s)"

text \<open>Lines 183-189: append the formatted line, then prevent overflow.\<close>

definition append_log_row :: "config \<Rightarrow> relay_env \<Rightarrow> relay_state \<Rightarrow> string \<Rightarrow> relay_state" where
  "append_log_row cfg env st entry =
     (let rows = log_rows st @ log_message_format env (line_n st) entry;
          rows' = (if int (length rows) > max_log_symbols cfg
                   then slice_from_neg (max_log_symbols cfg) rows else rows)
      in st\<lparr>log_rows := rows', line_n := line_n st + 1\<rparr>)"

text \<open>
  Lines 124-147: \<^verbatim>\<open>_send_message\<close>. It returns what \<^verbatim>\<open>send_safe\<close> returns, and an
  exception that propagates out of \<^verbatim>\<open>send_safe\<close> propagates out of it.
\<close>

definition send_message ::
  "config \<Rightarrow> relay_env \<Rightarrow> relay_poll \<Rightarrow> nat option \<Rightarrow> string \<Rightarrow> string \<Rightarrow>
   (string + nat option) \<times> (unit, inline_button list list) effect list" where
  "send_message cfg env p message_id' log_rows' message_base =
     (if message_base = ''log_message'' then
        send_safe (poll_transport p) (chat_id' env)
          (format_message env message_base log_rows'
             (Some (process_timeout cfg - (clock p - time_started' env))))
          None None (Some [[InlineKeyboardButton (btn_abort env) (getpid env)]]) True
          message_id' (bot_api_token cfg)
      else
        send_safe (poll_transport p) (chat_id' env) (format_message env message_base log_rows' None)
          None None None True message_id' (bot_api_token cfg))"

text \<open>
  Lines 155-170: the terminal flush; the loop leaves through \<^verbatim>\<open>break\<close>. Nothing in the
  loop catches an exception that propagates out of \<^verbatim>\<open>_send_message\<close>: it ends the
  thread, which is the last effect.
\<close>

definition terminal_flush ::
  "config \<Rightarrow> relay_env \<Rightarrow> relay_poll \<Rightarrow> relay_state \<Rightarrow> string \<Rightarrow>
   bool \<times> relay_state \<times> (unit, inline_button list list) effect list" where
  "terminal_flush cfg env p st message_base =
     (case send_message cfg env p (message_id st) (log_rows st) message_base of
        (Inr m, effs) \<Rightarrow> (False, st, Time_sleep (send_messages_interval cfg) # effs)
      | (Inl b, effs) \<Rightarrow>
          (False, st, Time_sleep (send_messages_interval cfg) # effs @ [Propagates b]))"

text \<open>
  Lines 191-197: the periodic flush and the sleep at the end of a pass.
  \<^verbatim>\<open>last_time_sent\<close> is assigned before the message is sent.
\<close>

definition periodic_flush ::
  "config \<Rightarrow> relay_env \<Rightarrow> relay_poll \<Rightarrow> relay_state \<Rightarrow>
   bool \<times> relay_state \<times> (unit, inline_button list list) effect list" where
  "periodic_flush cfg env p st =
     (if clock p - last_time_sent st \<ge> send_messages_interval cfg then
        (case send_message cfg env p (message_id st) (log_rows st) ''log_message'' of
           (Inr m, effs) \<Rightarrow>
             (True, st\<lparr>last_time_sent := clock p, message_id := m\<rparr>,
              effs @ [Time_sleep (1 / 10)])
         | (Inl b, effs) \<Rightarrow> (False, st\<lparr>last_time_sent := clock p\<rparr>, effs @ [Propagates b]))
      else (True, st, [Time_sleep (1 / 10)]))"

text \<open>
  Lines 149-197: one pass of \<^verbatim>\<open>while True\<close>. The first component says whether the loop
  goes on: it does not after a \<^verbatim>\<open>break\<close> or an exception that propagates.
\<close>

definition logs_to_message_iteration ::
  "config \<Rightarrow> relay_env \<Rightarrow> relay_poll \<Rightarrow> relay_state \<Rightarrow>
   bool \<times> relay_state \<times> (unit, inline_button list list) effect list" where
  "logs_to_message_iteration cfg env p st =
     (case queue_get p of
        Some Q_None \<Rightarrow> terminal_flush cfg env p st ''log_message_done''
      | Some Q_KeyboardInterrupt \<Rightarrow> terminal_flush cfg env p st ''log_message_done_interrupted''
      | Some (Q_Other v) \<Rightarrow> terminal_flush cfg env p st ''log_message_done_error''
      | Some (Q_LogRecord message) \<Rightarrow>
          if prefix (TELEGRAM_LOGS_IGNORE_PREFIX env) message
          then (True, st, [Logging_queue_put message])
          else (let (c, st', effs) = periodic_flush cfg env p (append_log_row cfg env st message)
                in (c, st', Logging_queue_put message # effs))
      | None \<Rightarrow> periodic_flush cfg env p st)"

text \<open>
  The loop over the passes that the environment offers. The result says whether the loop
  has been left; with no terminal marker among the polls it is still running.
\<close>

fun logs_to_message_loop ::
  "config \<Rightarrow> relay_env \<Rightarrow> relay_state \<Rightarrow> relay_poll list \<Rightarrow>
   bool \<times> relay_state \<times> (unit, inline_button list list) effect list" where
  "logs_to_message_loop cfg env st [] = (False, st, [])"
| "logs_to_message_loop cfg env st (p # ps) =
     (case logs_to_message_iteration cfg env p st of
        (False, st', effs) \<Rightarrow> (True, st', effs)
      | (True, st', effs) \<Rightarrow>
          (case logs_to_message_loop cfg env st' ps of
             (exited, st'', effs') \<Rightarrow> (exited, st'', effs @ effs')))"

text \<open>Lines 119-122: the initial state; \<open>t0\<close> is the clock when the thread starts.\<close>

definition relay_initial :: "real \<Rightarrow> relay_state" where
  "relay_initial t0 = \<lparr>log_rows = [], message_id = None, last_time_sent = t0, line_n = 1\<rparr>"


section \<open>Worker and supervisor (LMSDownloaderHandler.py)\<close>

text \<open>
  A value that travels on the \<^verbatim>\<open>return_queue\<close>, by its exact type: \<^verbatim>\<open>None\<close>; an
  instance of exactly \<^verbatim>\<open>KeyboardInterrupt\<close>; an instance of exactly \<^verbatim>\<open>Exception\<close> (with
  its message); an instance of a strict subclass of \<^verbatim>\<open>Exception\<close> (class name and
  message); a \<^verbatim>\<open>list\<close> of paths; a value of any other type (type name).
\<close>

datatype py_value =
    PyNone
  | PyKeyboardInterrupt
  | PyExceptionExact string
  | PyExceptionSubclass string string
  | PyList "string list"
  | PyOther string

text \<open>\<^verbatim>\<open>str(type(v))\<close> for the values that reach the last branch.\<close>

definition class_repr :: "string \<Rightarrow> string" where
  "class_repr name = ''<class '' @ [CHR 0x27] @ name @ [CHR 0x27] @ ''>''"

fun str_type :: "py_value \<Rightarrow> string" where
  "str_type PyNone = class_repr ''NoneType''"
| "str_type PyKeyboardInterrupt = class_repr ''KeyboardInterrupt''"
| "str_type (PyExceptionExact m) = class_repr ''Exception''"
| "str_type (PyExceptionSubclass c m) = class_repr c"
| "str_type (PyList fs) = class_repr ''list''"
| "str_type (PyOther t) = class_repr t"

text \<open>
  What \<^verbatim>\<open>lms_downloader.download(out_dir)\<close> does inside the child: returns a value, or
  raises an instance of \<^verbatim>\<open>Exception\<close> or of a subclass of it, or is interrupted
  (\<^verbatim>\<open>KeyboardInterrupt\<close>, \<^verbatim>\<open>SystemExit\<close>).
\<close>

datatype download_result =
    Returns py_value
  | Raises_Exception string
  | Raises_Exception_subclass string string
  | Raises_KeyboardInterrupt
  | Raises_SystemExit

text \<open>Lines 71-82: what the child puts on the \<^verbatim>\<open>return_queue\<close>, in order.\<close>

fun lms_downloader_process_child :: "download_result \<Rightarrow> py_value list" where
  "lms_downloader_process_child (Returns v) = [v, PyNone]"
| "lms_downloader_process_child (Raises_Exception m) = [PyExceptionExact m, PyNone]"
| "lms_downloader_process_child (Raises_Exception_subclass c m) = [PyExceptionSubclass c m, PyNone]"
| "lms_downloader_process_child Raises_KeyboardInterrupt = [PyKeyboardInterrupt, PyNone]"
| "lms_downloader_process_child Raises_SystemExit = [PyKeyboardInterrupt, PyNone]"

text \<open>What the supervisor's \<^verbatim>\<open>try\<close> block raises.\<close>

datatype raised = Raise_KeyboardInterrupt string | Raise_Exception string

datatype send_result = Sent | Send_failed string

datatype action =
    Logging_info string
  | Logging_info_retrying real nat
  | Logging_warning string
  | Logging_error string
  | Start_logging_thread
  | Create_temp_dir
  | Start_child_process
  | Sleep real
  | Send_document string
  | Os_kill_SIGINT
  | Child_process_kill
  | Internal_logging_queue_put queue_item
  | Join_logging_thread
  | Temp_dir_cleanup

definition CHILD_PROCESS_MAX_TERMINATE_TIME :: real where
  "CHILD_PROCESS_MAX_TERMINATE_TIME = 1"

definition RESEND_FILE_AFTER_TIME :: real where
  "RESEND_FILE_AFTER_TIME = 3"

definition MAX_FILES_RETRIES :: nat where
  "MAX_FILES_RETRIES = 3"

text \<open>\<^verbatim>\<open>os.path.basename\<close> on POSIX: what follows the last slash.\<close>

definition basename :: "string \<Rightarrow> string" where
  "basename path = rev (takeWhile (\<lambda>c. c \<noteq> CHR ''/'') (rev path))"

text \<open>
  Lines 236-281: the \<^verbatim>\<open>if\<close>/\<^verbatim>\<open>elif\<close> chain on the type of \<^verbatim>\<open>return_data\<close>, in the
  order of the source: what is raised, or the list of files to send.
\<close>

fun check_return_data :: "py_value \<Rightarrow> raised + string list" where
  "check_return_data PyNone =
     Inl (Raise_Exception ''Child process exited but doesn't return any data'')"
| "check_return_data PyKeyboardInterrupt =
     Inl (Raise_KeyboardInterrupt ''Keyboard interrupt from child process'')"
| "check_return_data (PyExceptionExact m) = Inl (Raise_Exception m)"
| "check_return_data (PyList files) = Inr files"
| "check_return_data v =
     Inl (Raise_Exception (''Child process exited but returning wrong type of data: '' @ str_type v))"

text \<open>
  Lines 252-272: the retry loop for one file. \<open>send k\<close> is what the \<open>k\<close>-th call of
  \<^verbatim>\<open>send_document\<close> made by this process does; the result is the number of calls made so
  far and the actions, in order.
\<close>

function send_file_loop ::
  "config \<Rightarrow> (nat \<Rightarrow> send_result) \<Rightarrow> string \<Rightarrow> nat \<Rightarrow> nat \<Rightarrow> nat \<times> action list" where
  "send_file_loop cfg send file k retries_count =
     (case send k of
        Sent \<Rightarrow> (Suc k, [Sleep (send_messages_interval cfg), Send_document file])
      | Send_failed e \<Rightarrow>
          (let acts = [Sleep (send_messages_interval cfg), Send_document file,
                       Logging_warning (''Error sending file: '' @ e),
                       Logging_info_retrying RESEND_FILE_AFTER_TIME (retries_count + 1),
                       Sleep RESEND_FILE_AFTER_TIME]
           in if retries_count + 1 \<ge> MAX_FILES_RETRIES
              then (Suc k, acts @ [Logging_error ''Max retries reached!''])
              else (case send_file_loop cfg send file (Suc k) (retries_count + 1) of
                      (k', acts') \<Rightarrow> (k', acts @ acts'))))"
  by pat_completeness auto
termination
  by (relation "measure (\<lambda>(cfg, send, file, k, retries_count). MAX_FILES_RETRIES - retries_count)")
     auto

text \<open>Lines 250-272: \<^verbatim>\<open>for file in return_data\<close>.\<close>

fun send_all_files ::
  "config \<Rightarrow> (nat \<Rightarrow> send_result) \<Rightarrow> nat \<Rightarrow> string list \<Rightarrow> nat \<times> action list" where
  "send_all_files cfg send k [] = (k, [])"
| "send_all_files cfg send k (file # files) =
     (case send_file_loop cfg send file k 0 of
        (k', acts) \<Rightarrow>
          (case send_all_files cfg send k' files of
             (k'', acts') \<Rightarrow> (k'', Logging_info (''Sending '' @ basename file) # acts @ acts')))"

text \<open>
  Lines 229-291: the loop that waits for the child. One poll is what
  \<^verbatim>\<open>return_queue.get(block=False)\<close> gives (\<open>None\<close> for \<^verbatim>\<open>queue.Empty\<close>) and what
  \<^verbatim>\<open>interrupt_event.is_set()\<close> answers. The result is \<open>None\<close> while the loop is still
  waiting when the polls end; otherwise what was raised (\<open>None\<close> for \<^verbatim>\<open>break\<close>) and the
  actions.
\<close>

fun wait_for_child ::
  "config \<Rightarrow> (nat \<Rightarrow> send_result) \<Rightarrow> (py_value option \<times> bool) list \<Rightarrow>
   (raised option \<times> action list) option" where
  "wait_for_child cfg send [] = None"
| "wait_for_child cfg send ((Some return_data, is_set) # polls) =
     (case check_return_data return_data of
        Inl r \<Rightarrow> Some (Some r, [])
      | Inr files \<Rightarrow>
          Some (None, snd (send_all_files cfg send 0 files) @ [Logging_info ''Finished'']))"
| "wait_for_child cfg send ((None, is_set) # polls) =
     (if is_set then Some (Some (Raise_KeyboardInterrupt []), [])
      else (case wait_for_child cfg send polls of
              None \<Rightarrow> None
            | Some (r, acts) \<Rightarrow> Some (r, Sleep (1 / 10) # acts)))"

text \<open>
  What the supervisor's environment does: whether starting the thread, creating the
  temporary directory, starting the child, \<^verbatim>\<open>os.kill\<close> and \<^verbatim>\<open>child_process.kill()\<close> raise
  (the message of the error), the polls of the waiting loop, the sends, and for each
  pass of the terminating loop what \<^verbatim>\<open>child_process.is_alive()\<close> answers and the time
  since \<^verbatim>\<open>child_process_terminate_timer\<close>.
\<close>

record process_env =
  thread_start_error :: "string option"
  temp_dir_error :: "string option"
  child_start_error :: "string option"
  return_polls :: "(py_value option \<times> bool) list"
  send_document :: "nat \<Rightarrow> send_result"
  os_kill_error :: "string option"
  terminate_polls :: "(bool \<times> real) list"
  child_kill_error :: "string option"

text \<open>Lines 302-313: the loop that waits for the child to terminate.\<close>

fun terminate_wait :: "string option \<Rightarrow> (bool \<times> real) list \<Rightarrow> action list option" where
  "terminate_wait kill_error [] = None"
| "terminate_wait kill_error ((is_alive, elapsed) # polls) =
     (if \<not> is_alive then Some [Logging_info ''Child process terminated'']
      else if elapsed > CHILD_PROCESS_MAX_TERMINATE_TIME then
        Some ([Logging_warning ''Killing the process'', Child_process_kill] @
              (case kill_error of
                 None \<Rightarrow> []
               | Some e \<Rightarrow> [Logging_error (''Error terminating child process: '' @ e)]))
      else terminate_wait kill_error polls)"

text \<open>The local variables that the code after the \<^verbatim>\<open>try\<close> statement tests.\<close>

record locals =
  internal_logging_thread :: bool
  temp_dir :: bool
  child_process :: bool

text \<open>
  Lines 102-291: the \<^verbatim>\<open>try\<close> block. The thread and the process objects are assigned
  before their \<^verbatim>\<open>start()\<close> is called, the directory by the call that creates it.
\<close>

definition try_block ::
  "config \<Rightarrow> process_env \<Rightarrow> locals \<times> (raised option \<times> action list) option" where
  "try_block cfg env =
     (case thread_start_error env of
        Some e \<Rightarrow>
          (\<lparr>internal_logging_thread = True, temp_dir = False, child_process = False\<rparr>,
           Some (Some (Raise_Exception e), [Logging_info ''Starting internal logging handler'']))
      | None \<Rightarrow>
     (case temp_dir_error env of
        Some e \<Rightarrow>
          (\<lparr>internal_logging_thread = True, temp_dir = False, child_process = False\<rparr>,
           Some (Some (Raise_Exception e),
                 [Logging_info ''Starting internal logging handler'', Start_logging_thread]))
      | None \<Rightarrow>
     (case child_start_error env of
        Some e \<Rightarrow>
          (\<lparr>internal_logging_thread = True, temp_dir = True, child_process = True\<rparr>,
           Some (Some (Raise_Exception e),
                 [Logging_info ''Starting internal logging handler'', Start_logging_thread,
                  Create_temp_dir, Logging_info ''Starting child process'']))
      | None \<Rightarrow>
          (\<lparr>internal_logging_thread = True, temp_dir = True, child_process = True\<rparr>,
           (case wait_for_child cfg (send_document env) (return_polls env) of
              None \<Rightarrow> None
            | Some (r, acts) \<Rightarrow>
                Some (r, [Logging_info ''Starting internal logging handler'', Start_logging_thread,
                          Create_temp_dir, Logging_info ''Starting child process'',
                          Start_child_process,
                          Logging_info ''Waiting for data from child process or for interrupt event'']
                         @ acts))))))"

text \<open>
  Lines 292-324: the two handlers. The result is \<open>None\<close> when the terminating loop is
  still running at the end of its polls.
\<close>

definition except_handlers :: "process_env \<Rightarrow> locals \<Rightarrow> raised option \<Rightarrow> action list option" where
  "except_handlers env vars r =
     (case r of
        None \<Rightarrow> Some []
      | Some (Raise_Exception m) \<Rightarrow>
          Some [Logging_error (''Error: '' @ m), Internal_logging_queue_put (Q_Other m)]
      | Some (Raise_KeyboardInterrupt m) \<Rightarrow>
          (let marker = [Logging_error ''Parent process was interrupted!'',
                       Internal_logging_queue_put Q_KeyboardInterrupt]
           in if child_process vars then
                (case os_kill_error env of
                   Some e \<Rightarrow>
                     Some ([Logging_info ''Terminating child process'', Os_kill_SIGINT,
                            Logging_error (''Error terminating child process: '' @ e)] @ marker)
                 | None \<Rightarrow>
                     (case terminate_wait (child_kill_error env) (terminate_polls env) of
                        None \<Rightarrow> None
                      | Some acts \<Rightarrow>
                          Some ([Logging_info ''Terminating child process'', Os_kill_SIGINT]
                                @ acts @ marker)))
              else Some marker))"

text \<open>Lines 326-336: what follows the \<^verbatim>\<open>try\<close> statement.\<close>

definition after_try :: "locals \<Rightarrow> action list" where
  "after_try vars =
     [Internal_logging_queue_put Q_None]
     @ (if internal_logging_thread vars then [Join_logging_thread] else [])
     @ (if temp_dir vars then [Temp_dir_cleanup] else [])"

text \<open>
  Lines 85-336: \<^verbatim>\<open>_lms_downloader_process\<close>. The result is the actions of the process
  when it returns, \<open>None\<close> when one of its loops is still running at the end of its polls.
\<close>

definition lms_downloader_process :: "config \<Rightarrow> process_env \<Rightarrow> action list option" where
  "lms_downloader_process cfg env =
     (case try_block cfg env of
        (vars, None) \<Rightarrow> None
      | (vars, Some (r, acts)) \<Rightarrow>
          (case except_handlers env vars r of
             None \<Rightarrow> None
           | Some handled \<Rightarrow> Some (acts @ handled @ after_try vars)))"


section \<open>Observations on the effects of the relay\<close>

text \<open>
  The template that the terminal flush is claimed to use for each marker: done for
  \<^verbatim>\<open>None\<close>, done-interrupted for a \<^verbatim>\<open>KeyboardInterrupt\<close>, done-error for any other
  value that is not a log record.
\<close>

fun terminal_template :: "queue_item \<Rightarrow> string" where
  "terminal_template Q_None = ''log_message_done''"
| "terminal_template Q_KeyboardInterrupt = ''log_message_done_interrupted''"
| "terminal_template (Q_Other v) = ''log_message_done_error''"
| "terminal_template (Q_LogRecord m) = ''log_message''"

fun is_tg :: "('c, 'm) effect \<Rightarrow> bool" where
  "is_tg (Tg c) = True"
| "is_tg e = False"

text \<open>
  The calls of the messaging library among the effects, in order: \<open>None\<close> for a
  \<^verbatim>\<open>send_message\<close> (a new message), \<open>Some i\<close> for an edit of message \<open>i\<close>.
\<close>

fun sent_calls :: "('c, 'm) effect list \<Rightarrow> nat option list" where
  "sent_calls [] = []"
| "sent_calls (Tg (Send_message b c t r m p) # effs) = None # sent_calls effs"
| "sent_calls (Tg (Edit_message_text b c i t m p) # effs) = Some i # sent_calls effs"
| "sent_calls (e # effs) = sent_calls effs"

text \<open>
  The full accumulated text of the claim about the log buffer: every formatted line that
  the loop appends over the polls, with its running line number and with nothing removed,
  after the text \<open>full\<close> accumulated so far.
\<close>

fun accumulated_rows :: "relay_env \<Rightarrow> string \<Rightarrow> nat \<Rightarrow> relay_poll list \<Rightarrow> string" where
  "accumulated_rows env full n [] = full"
| "accumulated_rows env full n (p # ps) =
     (case queue_get p of
        None \<Rightarrow> accumulated_rows env full n ps
      | Some (Q_LogRecord message) \<Rightarrow>
          if prefix (TELEGRAM_LOGS_IGNORE_PREFIX env) message
          then accumulated_rows env full n ps
          else accumulated_rows env (full @ log_message_format env n message) (n + 1) ps
      | Some marker \<Rightarrow> full)"

section \<open>Observations on the actions of the supervisor\<close>

text \<open>The files of the \<^verbatim>\<open>send_document\<close> calls among the actions, in order.\<close>

fun sent_documents :: "action list \<Rightarrow> string list" where
  "sent_documents [] = []"
| "sent_documents (Send_document file # acts) = file # sent_documents acts"
| "sent_documents (a # acts) = sent_documents acts"

text \<open>
  The actions of one attempt to send a file, by what the call does: the attempt number
  \<open>n\<close> is the value of \<^verbatim>\<open>retries_count\<close> that is logged. A failed attempt ends with
  the wait of \<^verbatim>\<open>RESEND_FILE_AFTER_TIME\<close>.
\<close>

fun attempt :: "config \<Rightarrow> string \<Rightarrow> nat \<Rightarrow> send_result \<Rightarrow> action list" where
  "attempt cfg file n Sent = [Sleep (send_messages_interval cfg), Send_document file]"
| "attempt cfg file n (Send_failed e) =
     [Sleep (send_messages_interval cfg), Send_document file,
      Logging_warning (''Error sending file: '' @ e),
      Logging_info_retrying RESEND_FILE_AFTER_TIME n,
      Sleep RESEND_FILE_AFTER_TIME]"

text \<open>The actions of consecutive attempts, after \<open>r\<close> earlier ones.\<close>

fun attempts :: "config \<Rightarrow> string \<Rightarrow> nat \<Rightarrow> send_result list \<Rightarrow> action list" where
  "attempts cfg file r [] = []"
| "attempts cfg file r (out # outs) = attempt cfg file (r + 1) out @ attempts cfg file (r + 1) outs"

text \<open>
  The values that the supervisor puts on the internal logging queue, in order: the
  markers that the log relay reads.
\<close>

fun queue_puts :: "action list \<Rightarrow> queue_item list" where
  "queue_puts [] = []"
| "queue_puts (Internal_logging_queue_put q # acts) = q # queue_puts acts"
| "queue_puts (a # acts) = queue_puts acts"

text \<open>The actions of the \<^verbatim>\<open>try\<close> block up to its waiting loop, when nothing fails.\<close>

definition startup_actions :: "action list" where
  "startup_actions =
     [Logging_info ''Starting internal logging handler'', Start_logging_thread,
      Create_temp_dir, Logging_info ''Starting child process'', Start_child_process,
      Logging_info ''Waiting for data from child process or for interrupt event'']"

definition all_started :: locals where
  "all_started = \<lparr>internal_logging_thread = True, temp_dir = True, child_process = True\<rparr>"

section \<open>Concrete inputs\<close>

definition cfg0 :: config where
  "cfg0 = \<lparr>process_timeout = 10, send_messages_interval = 1, max_log_symbols = 5,
            bot_api_token = ''token''\<rparr>"

definition job_finished :: job where
  "job_finished =
     \<lparr>time_started = 0, pid = 1, alive = False, interrupt_event = False, killed = False\<rparr>"

definition job_overdue :: job where
  "job_overdue =
     \<lparr>time_started = 0, pid = 2, alive = True, interrupt_event = False, killed = False\<rparr>"

definition cfg_cap0 :: config where
  "cfg_cap0 = cfg0\<lparr>max_log_symbols := 0\<rparr>"

definition env0 :: relay_env where
  "env0 = \<lparr>format_message = (\<lambda>key rows remaining. rows),
            log_message_format = (\<lambda>n entry. entry @ ''|''),
            btn_abort = ''Abort'', TELEGRAM_LOGS_IGNORE_PREFIX = ''HTTP'',
            chat_id' = 7, time_started' = 0, getpid = 42\<rparr>"

text \<open>
  Three passes with an empty queue, one second apart: the first send returns message 5,
  the edit of message 5 fails, the next send returns message 6.
\<close>

definition polls_edit_fails :: "relay_poll list" where
  "polls_edit_fails =
     [\<lparr>queue_get = None, clock = 1, transport' = (\<lambda>c. Inr 5)\<rparr>,
      \<lparr>queue_get = None, clock = 2,
        transport' = (\<lambda>c. Inl (PyException ''TimedOut'' ''Timed out''))\<rparr>,
      \<lparr>queue_get = None, clock = 3, transport' = (\<lambda>c. Inr 6)\<rparr>]"

text \<open>Two log records, then the end-of-stream marker.\<close>

definition polls_two_records :: "relay_poll list" where
  "polls_two_records =
     [\<lparr>queue_get = Some (Q_LogRecord ''abc''), clock = 0, transport' = (\<lambda>c. Inr 5)\<rparr>,
      \<lparr>queue_get = Some (Q_LogRecord ''de''), clock = 0, transport' = (\<lambda>c. Inr 5)\<rparr>,
      \<lparr>queue_get = Some Q_None, clock = 0, transport' = (\<lambda>c. Inr 5)\<rparr>]"

text \<open>Sends: the second and the third call fail, every other call succeeds.\<close>

definition send_second_fails_twice :: "nat \<Rightarrow> send_result" where
  "send_second_fails_twice k = (if k = 1 \<or> k = 2 then Send_failed ''timeout'' else Sent)"

text \<open>Sends: the second, third and fourth call fail, every other call succeeds.\<close>

definition send_second_file_fails :: "nat \<Rightarrow> send_result" where
  "send_second_file_fails k = (if 1 \<le> k \<and> k \<le> 3 then Send_failed ''timeout'' else Sent)"

text \<open>
  Environments of the supervisor: nothing fails at start; after one empty poll the child
  returns a list of three paths, or a \<^verbatim>\<open>ValueError\<close>, or the interrupt event is set.
\<close>

definition env_list :: process_env where
  "env_list =
     \<lparr>thread_start_error = None, temp_dir_error = None, child_start_error = None,
      return_polls = [(None, False), (Some (PyList [''/t/a'', ''/t/b'', ''/t/c'']), False)],
      send_document = send_second_fails_twice, os_kill_error = None,
      terminate_polls = [(True, 1 / 2), (True, 3 / 2)], child_kill_error = None\<rparr>"

definition env_value_error :: process_env where
  "env_value_error =
     env_list\<lparr>return_polls := [(None, False), (Some (PyExceptionSubclass ''ValueError'' ''bad link''), False)]\<rparr>"

definition env_interrupt :: process_env where
  "env_interrupt = env_list\<lparr>return_polls := [(None, False), (None, True)]\<rparr>"

section \<open>Properties of the registry and the watchdog\<close>

declare processes_for_loop.simps [simp del]
declare send_file_loop.simps [simp del]


text \<open>
  The timeout check of a job that is visited: past the deadline its interrupt event is
  set, and past the deadline plus \<^verbatim>\<open>EXIT_WAIT_TIME\<close> it is killed as well.
\<close>

lemma check_timeout_escalates:
  "now - time_started j \<ge> process_timeout cfg \<Longrightarrow> interrupt_event (check_timeout cfg now j)"
  "now - time_started j \<ge> process_timeout cfg + EXIT_WAIT_TIME \<Longrightarrow>
     killed (check_timeout cfg now j) \<and> interrupt_event (check_timeout cfg now j)"
  by (auto simp: check_timeout_def Let_def EXIT_WAIT_TIME_def)



text \<open>
  C1. The claim: on every watchdog tick, every registered job whose process is alive and
  whose deadline has passed gets its interrupt event set, and is killed once the deadline
  plus the grace window has passed. The scan removes finished entries from the list it
  is iterating, so the entry that follows a removed one is not visited on that tick: with
  a finished job in front of it, an alive job that is past its deadline plus the grace
  window is left as it was (event unset, not killed). Alone in the list, the same job is
  interrupted and killed.
\<close>

theorem watchdog_skips_job_after_finished_job:
  "alive job_overdue \<and> \<not> interrupt_event job_overdue
   \<and> 100 - time_started job_overdue \<ge> process_timeout cfg0 + EXIT_WAIT_TIME
   \<and> processes_watchdog_iteration cfg0 True 100
        \<lparr>lms_downloader_processes = [job_finished, job_overdue], exit_timer = 0, finished = False\<rparr>
      = Inr \<lparr>lms_downloader_processes = [job_overdue], exit_timer = 0, finished = False\<rparr>
   \<and> processes_watchdog_iteration cfg0 True 100
        \<lparr>lms_downloader_processes = [job_overdue], exit_timer = 0, finished = False\<rparr>
      = Inr \<lparr>lms_downloader_processes = [job_overdue\<lparr>interrupt_event := True, killed := True\<rparr>],
              exit_timer = 0, finished = False\<rparr>"
  by (simp add: processes_watchdog_iteration_def processes_for_loop.simps list_remove_def
      check_timeout_def job_finished_def job_overdue_def cfg0_def EXIT_WAIT_TIME_def)





section \<open>Properties of send_safe\<close>

lemma send_safe_fst:
  "fst (send_safe transport chat_id text context reply_to reply_markup parse_markdown edit_message_id tok)
     = (case transport (send_safe_call chat_id text context reply_to reply_markup parse_markdown edit_message_id tok)
        of Inr i \<Rightarrow> Inr (Some i)
         | Inl (Exception_instance e) \<Rightarrow> Inr None
         | Inl (BaseException_only b) \<Rightarrow> Inl b)"
  by (simp add: send_safe_def Let_def split: sum.splits py_raised.splits)

lemma send_safe_snd:
  "snd (send_safe transport chat_id text context reply_to reply_markup parse_markdown edit_message_id tok)
     = Tg (send_safe_call chat_id text context reply_to reply_markup parse_markdown edit_message_id tok)
       # (case transport (send_safe_call chat_id text context reply_to reply_markup parse_markdown edit_message_id tok)
          of Inr i \<Rightarrow> []
           | Inl (Exception_instance e) \<Rightarrow>
               [Logging_error_sending (unescape_whitespace (send_safe_text parse_markdown text)) chat_id]
           | Inl (BaseException_only b) \<Rightarrow> [])"
  by (simp add: send_safe_def Let_def split: sum.splits py_raised.splits)

lemma send_safe_one_call:
  "length (filter is_tg (snd (send_safe transport chat_id text context reply_to reply_markup parse_markdown edit_message_id tok))) = 1"
  by (simp add: send_safe_snd split: sum.splits py_raised.splits)

lemma sent_calls_send_safe:
  "sent_calls (snd (send_safe transport chat_id text context reply_to reply_markup parse_markdown edit_message_id tok))
    = [case edit_message_id of None \<Rightarrow> None | Some m \<Rightarrow> if m = 0 then None else Some m]"
  by (simp add: send_safe_snd send_safe_call_def Let_def
      split: sum.splits option.splits py_raised.splits)

text \<open>
  The messaging calls of the relay fail with instances of \<^verbatim>\<open>Exception\<close> only, so in
  the relay \<^verbatim>\<open>send_safe\<close> and \<^verbatim>\<open>_send_message\<close> always return.
\<close>

lemma send_safe_poll_transport:
  "fst (send_safe (poll_transport p) chat_id text context reply_to reply_markup parse_markdown
          edit_message_id tok)
     = Inr (case transport' p (send_safe_call chat_id text context reply_to reply_markup
                                 parse_markdown edit_message_id tok)
            of Inr i \<Rightarrow> Some i | Inl e \<Rightarrow> None)"
  by (simp add: send_safe_fst poll_transport_def split: sum.splits)

lemma send_message_returns:
  "\<exists>r. fst (send_message cfg env p mid rows base) = Inr r"
  by (simp add: send_message_def send_safe_poll_transport)

lemma terminal_flush_returns:
  "terminal_flush cfg env p st base =
     (False, st, Time_sleep (send_messages_interval cfg)
                 # snd (send_message cfg env p (message_id st) (log_rows st) base))"
proof -
  obtain r where "fst (send_message cfg env p (message_id st) (log_rows st) base) = Inr r"
    using send_message_returns by blast
  then show ?thesis
    by (cases "send_message cfg env p (message_id st) (log_rows st) base")
       (simp add: terminal_flush_def)
qed

lemma periodic_flush_returns:
  "periodic_flush cfg env p st =
     (if clock p - last_time_sent st \<ge> send_messages_interval cfg then
        (True,
         st\<lparr>last_time_sent := clock p,
            message_id := (case fst (send_message cfg env p (message_id st) (log_rows st)
                                        ''log_message'')
                           of Inr m \<Rightarrow> m | Inl b \<Rightarrow> None)\<rparr>,
         snd (send_message cfg env p (message_id st) (log_rows st) ''log_message'')
         @ [Time_sleep (1 / 10)])
      else (True, st, [Time_sleep (1 / 10)]))"
proof -
  obtain r where "fst (send_message cfg env p (message_id st) (log_rows st) ''log_message'') = Inr r"
    using send_message_returns by blast
  then show ?thesis
    by (cases "send_message cfg env p (message_id st) (log_rows st) ''log_message''")
       (simp add: periodic_flush_def)
qed

lemma iteration_continues:
  "fst (logs_to_message_iteration cfg env p st) =
     (case queue_get p of
        None \<Rightarrow> True
      | Some (Q_LogRecord m) \<Rightarrow> True
      | Some marker \<Rightarrow> False)"
proof (cases "queue_get p")
  case None
  then show ?thesis
    by (simp add: logs_to_message_iteration_def periodic_flush_returns)
next
  case (Some item)
  then show ?thesis
    by (cases item)
       (simp_all add: logs_to_message_iteration_def periodic_flush_returns
          terminal_flush_returns split_beta)
qed

text \<open>
  C7, as claimed: for every input \<^verbatim>\<open>send_safe\<close> never raises. Its handler is
  \<^verbatim>\<open>except Exception\<close>: when the awaited edit call is cancelled, the
  \<^verbatim>\<open>asyncio.CancelledError\<close>, which derives from \<^verbatim>\<open>BaseException\<close> only, is not caught
  and propagates out of \<^verbatim>\<open>send_safe\<close>.
\<close>

theorem send_safe_cancelled_counterexample:
  "fst (send_safe (\<lambda>c. Inl (BaseException_only ''asyncio.CancelledError'')) 7 ''a.b''
          (None :: unit option) None (None :: unit option) True (Some 5) ''token'')
     = Inl ''asyncio.CancelledError''
   \<and> snd (send_safe (\<lambda>c. Inl (BaseException_only ''asyncio.CancelledError'')) 7 ''a.b''
          (None :: unit option) None (None :: unit option) True (Some 5) ''token'')
     = [Tg (send_safe_call 7 ''a.b'' (None :: unit option) None (None :: unit option) True
              (Some 5) ''token'')]"
  by (simp add: send_safe_fst send_safe_snd)

text \<open>
  C7, amended: for every input, when the awaited send or edit call returns or raises an
  instance of \<^verbatim>\<open>Exception\<close>, \<^verbatim>\<open>send_safe\<close> returns and raises nothing: it returns
  the message id that the call returned, and \<^verbatim>\<open>None\<close> when the call raised. It makes
  exactly one call, the one chosen by the branch taken. In the log relay, where the
  calls fail with instances of \<^verbatim>\<open>Exception\<close> only, whether a pass of the loop goes on
  depends on the dequeued value only, never on what the messaging call does.
\<close>

theorem send_safe_swallows_exceptions:
  assumes "\<forall>b. transport (send_safe_call chat_id text context reply_to reply_markup
                            parse_markdown edit_message_id tok) \<noteq> Inl (BaseException_only b)"
  shows "fst (send_safe transport chat_id text context reply_to reply_markup parse_markdown
          edit_message_id tok)
     = Inr (case transport (send_safe_call chat_id text context reply_to reply_markup
                              parse_markdown edit_message_id tok)
            of Inr i \<Rightarrow> Some i | Inl e \<Rightarrow> None)
   \<and> length (filter is_tg (snd (send_safe transport chat_id text context reply_to reply_markup
                                   parse_markdown edit_message_id tok))) = 1
   \<and> sent_calls (snd (send_safe transport chat_id text context reply_to reply_markup
                         parse_markdown edit_message_id tok))
     = [case edit_message_id of None \<Rightarrow> None | Some m \<Rightarrow> if m = 0 then None else Some m]
   \<and> fst (logs_to_message_iteration cfg env p st) =
       (case queue_get p of
          None \<Rightarrow> True
        | Some (Q_LogRecord m) \<Rightarrow> True
        | Some marker \<Rightarrow> False)"
proof -
  have returned: "fst (send_safe transport chat_id text context reply_to reply_markup
          parse_markdown edit_message_id tok)
     = Inr (case transport (send_safe_call chat_id text context reply_to reply_markup
                              parse_markdown edit_message_id tok)
            of Inr i \<Rightarrow> Some i | Inl e \<Rightarrow> None)"
    using assms by (simp add: send_safe_fst split: sum.splits py_raised.splits)
  have one_call: "length (filter is_tg (snd (send_safe transport chat_id text context reply_to
          reply_markup parse_markdown edit_message_id tok))) = 1"
    by (rule send_safe_one_call)
  have which: "sent_calls (snd (send_safe transport chat_id text context reply_to reply_markup
                         parse_markdown edit_message_id tok))
     = [case edit_message_id of None \<Rightarrow> None | Some m \<Rightarrow> if m = 0 then None else Some m]"
    by (rule sent_calls_send_safe)
  from returned one_call which iteration_continues [of cfg env p st]
  show ?thesis by (intro conjI)
qed

theorem send_safe_swallows_exceptions_witness:
  "fst (send_safe (\<lambda>c. Inl (Exception_instance (PyException ''TimedOut'' ''Timed out''))) 7 ''a.b''
          (None :: unit option) None (None :: unit option) True (Some 5) ''token'') = Inr None
   \<and> fst (send_safe (\<lambda>c. Inr 9) 7 ''a.b'' (None :: unit option)
          None (None :: unit option) True (Some 5) ''token'') = Inr (Some 9)
   \<and> sent_calls (snd (send_safe (\<lambda>c. Inr 9) 7 ''a.b'' (None :: unit option)
          None (None :: unit option) True (Some 5) ''token'')) = [Some 5]"
  using send_safe_swallows_exceptions
          [of "\<lambda>c. Inl (Exception_instance (PyException ''TimedOut'' ''Timed out''))" 7 "''a.b''"
              "None :: unit option" None "None :: unit option" True "Some 5" "''token''"]
        send_safe_swallows_exceptions [of "\<lambda>c. Inr 9" 7 "''a.b''"
          "None :: unit option" None "None :: unit option" True "Some 5" "''token''"]
  by simp

section \<open>Properties of the log relay\<close>

lemma send_message_one_call:
  "length (filter is_tg (snd (send_message cfg env p mid rows base))) = 1"
  by (simp add: send_message_def send_safe_one_call)

lemma send_message_sent_calls:
  "sent_calls (snd (send_message cfg env p mid rows base))
    = [case mid of None \<Rightarrow> None | Some m \<Rightarrow> if m = 0 then None else Some m]"
  by (simp add: send_message_def sent_calls_send_safe)

lemma send_message_terminal_call:
  "base \<noteq> ''log_message'' \<Longrightarrow>
   hd (snd (send_message cfg env p mid rows base))
     = Tg (send_safe_call (chat_id' env) (format_message env base rows None) None None None True mid (bot_api_token cfg))"
  by (simp add: send_message_def send_safe_snd)

lemma terminal_template_not_progress:
  "\<forall>m. item \<noteq> Q_LogRecord m \<Longrightarrow> terminal_template item \<noteq> ''log_message''"
  by (cases item) auto

lemma iteration_terminal:
  "queue_get p = Some item \<Longrightarrow> \<forall>m. item \<noteq> Q_LogRecord m \<Longrightarrow>
   logs_to_message_iteration cfg env p st = terminal_flush cfg env p st (terminal_template item)"
  by (cases item) (auto simp: logs_to_message_iteration_def)

lemma sent_calls_append: "sent_calls (xs @ ys) = sent_calls xs @ sent_calls ys"
  by (induction xs rule: sent_calls.induct) auto

text \<open>
  C6. For every termination marker that a pass of the loop dequeues (\<^verbatim>\<open>None\<close>, a
  \<^verbatim>\<open>KeyboardInterrupt\<close>, any other value that is not a log record), whatever the state
  and whatever polls would follow: the loop exits in this pass with the state unchanged;
  its effects are the settle delay of one send interval followed by the effects of one
  flush, which makes exactly one call of the messaging library, with the text of the
  done, done-interrupted or done-error template, none of which is the progress template.
\<close>

theorem terminal_flush_once:
  assumes "queue_get p = Some item" and "\<forall>m. item \<noteq> Q_LogRecord m"
  shows "\<exists>effs. logs_to_message_loop cfg env st (p # ps) =
            (True, st, Time_sleep (send_messages_interval cfg) # effs)
         \<and> length (filter is_tg effs) = 1
         \<and> hd effs = Tg (send_safe_call (chat_id' env)
                          (format_message env (terminal_template item) (log_rows st) None)
                          None None None True (message_id st) (bot_api_token cfg))
         \<and> terminal_template item \<noteq> ''log_message''"
  using assms
  by (simp add: iteration_terminal terminal_flush_returns send_message_one_call
      send_message_terminal_call terminal_template_not_progress)

theorem terminal_flush_once_witness:
  "\<exists>effs. logs_to_message_loop cfg0 env0 (relay_initial 0)
            (\<lparr>queue_get = Some Q_KeyboardInterrupt, clock = 0, transport' = (\<lambda>c. Inr 5)\<rparr>
             # polls_two_records) =
            (True, relay_initial 0, Time_sleep (send_messages_interval cfg0) # effs)
         \<and> length (filter is_tg effs) = 1
         \<and> hd effs = Tg (send_safe_call (chat_id' env0)
                          (format_message env0 ''log_message_done_interrupted''
                             (log_rows (relay_initial 0)) None)
                          None None None True (message_id (relay_initial 0)) (bot_api_token cfg0))"
  using terminal_flush_once
          [of "\<lparr>queue_get = Some Q_KeyboardInterrupt, clock = 0, transport' = (\<lambda>c. Inr 5)\<rparr>"
              Q_KeyboardInterrupt cfg0 env0 "relay_initial 0" polls_two_records]
  by simp

text \<open>
  C3. The claim: over an execution of the relay loop at most one message is created, and
  every later progress flush edits that message. The loop stores whatever
  \<^verbatim>\<open>_send_message\<close> returns as the message id, and \<^verbatim>\<open>send_safe\<close> returns \<^verbatim>\<open>None\<close> when
  the call fails: after a failed edit the id is lost and the next flush sends a new
  message. Here the first flush creates message 5, the edit of 5 fails, and the third
  flush creates a second message, 6.
\<close>

theorem relay_creates_second_message_after_failed_edit:
  "sent_calls (snd (snd (logs_to_message_loop cfg0 env0 (relay_initial 0) polls_edit_fails)))
     = [None, Some 5, None]
   \<and> message_id (fst (snd (logs_to_message_loop cfg0 env0 (relay_initial 0) polls_edit_fails)))
     = Some 6"
  by (simp add: polls_edit_fails_def logs_to_message_iteration_def periodic_flush_returns
      send_message_def send_safe_poll_transport sent_calls_append sent_calls_send_safe
      cfg0_def env0_def relay_initial_def Let_def split_beta)

lemma slice_from_neg_pos:
  "0 < n \<Longrightarrow> slice_from_neg n s = drop (length s - nat n) s"
  by (auto simp: slice_from_neg_def Let_def max_def nat_diff_distrib' intro: arg_cong [where f = "\<lambda>k. drop k s"])

lemma append_log_row_rows:
  "0 < max_log_symbols cfg \<Longrightarrow>
   log_rows (append_log_row cfg env st entry) =
     (if int (length (log_rows st @ log_message_format env (line_n st) entry)) > max_log_symbols cfg
      then drop (length (log_rows st @ log_message_format env (line_n st) entry) - nat (max_log_symbols cfg))
             (log_rows st @ log_message_format env (line_n st) entry)
      else log_rows st @ log_message_format env (line_n st) entry)"
  by (simp add: append_log_row_def Let_def slice_from_neg_pos)

lemma append_log_row_line_n: "line_n (append_log_row cfg env st entry) = line_n st + 1"
  by (simp add: append_log_row_def Let_def)

lemma append_log_row_length:
  assumes "0 < max_log_symbols cfg"
  shows "int (length (log_rows (append_log_row cfg env st entry))) \<le> max_log_symbols cfg"
proof -
  define rows where "rows = log_rows st @ log_message_format env (line_n st) entry"
  have "log_rows (append_log_row cfg env st entry) =
      (if int (length rows) > max_log_symbols cfg
       then drop (length rows - nat (max_log_symbols cfg)) rows else rows)"
    unfolding rows_def using assms by (rule append_log_row_rows)
  then show ?thesis using assms by auto
qed

lemma append_log_row_exact:
  assumes "0 < max_log_symbols cfg"
    and "int (length (log_rows st @ log_message_format env (line_n st) entry)) > max_log_symbols cfg"
  shows "int (length (log_rows (append_log_row cfg env st entry))) = max_log_symbols cfg"
proof -
  define rows where "rows = log_rows st @ log_message_format env (line_n st) entry"
  have "log_rows (append_log_row cfg env st entry) =
      (if int (length rows) > max_log_symbols cfg
       then drop (length rows - nat (max_log_symbols cfg)) rows else rows)"
    unfolding rows_def using assms(1) by (rule append_log_row_rows)
  moreover have "int (length rows) > max_log_symbols cfg"
    unfolding rows_def using assms(2) .
  ultimately show ?thesis using assms(1) by auto
qed

lemma append_log_row_suffix:
  assumes "0 < max_log_symbols cfg"
  shows "suffix (log_rows (append_log_row cfg env st entry))
          (log_rows st @ log_message_format env (line_n st) entry)"
proof -
  define rows where "rows = log_rows st @ log_message_format env (line_n st) entry"
  have "log_rows (append_log_row cfg env st entry) =
      (if int (length rows) > max_log_symbols cfg
       then drop (length rows - nat (max_log_symbols cfg)) rows else rows)"
    unfolding rows_def using assms by (rule append_log_row_rows)
  then have "suffix (log_rows (append_log_row cfg env st entry)) rows"
    by (simp add: suffix_drop)
  then show ?thesis unfolding rows_def .
qed

lemma periodic_flush_rows:
  "log_rows (fst (snd (periodic_flush cfg env p st))) = log_rows st
   \<and> line_n (fst (snd (periodic_flush cfg env p st))) = line_n st
   \<and> fst (periodic_flush cfg env p st)"
  by (simp add: periodic_flush_returns)

lemma loop_invariant:
  "0 < max_log_symbols cfg \<Longrightarrow> int (length (log_rows st)) \<le> max_log_symbols cfg \<Longrightarrow>
   suffix (log_rows st) full \<Longrightarrow>
   int (length (log_rows (fst (snd (logs_to_message_loop cfg env st polls))))) \<le> max_log_symbols cfg
   \<and> suffix (log_rows (fst (snd (logs_to_message_loop cfg env st polls))))
             (accumulated_rows env full (line_n st) polls)"
proof (induction polls arbitrary: st full)
  case Nil
  then show ?case by simp
next
  case (Cons p ps)
  show ?case
  proof (cases "queue_get p")
    case None
    let ?st' = "fst (snd (periodic_flush cfg env p st))"
    have it: "logs_to_message_iteration cfg env p st = periodic_flush cfg env p st"
      using None by (simp add: logs_to_message_iteration_def)
    have st': "log_rows ?st' = log_rows st" "line_n ?st' = line_n st" "fst (periodic_flush cfg env p st)"
      using periodic_flush_rows by auto
    have "int (length (log_rows ?st')) \<le> max_log_symbols cfg" "suffix (log_rows ?st') full"
      using Cons.prems st' by auto
    from Cons.IH [OF Cons.prems(1) this]
    show ?thesis using None it st'
      by (cases "periodic_flush cfg env p st") (auto simp: split_beta)
  next
    case (Some item)
    show ?thesis
    proof (cases item)
      case (Q_LogRecord m)
      show ?thesis
      proof (cases "prefix (TELEGRAM_LOGS_IGNORE_PREFIX env) m")
        case True
        have it: "logs_to_message_iteration cfg env p st = (True, st, [Logging_queue_put m])"
          using Some Q_LogRecord True by (simp add: logs_to_message_iteration_def)
        from Cons.IH [OF Cons.prems] show ?thesis
          using Some Q_LogRecord True it by (simp add: split_beta)
      next
        case False
        let ?st1 = "append_log_row cfg env st m"
        let ?st' = "fst (snd (periodic_flush cfg env p ?st1))"
        have st': "log_rows ?st' = log_rows ?st1" "line_n ?st' = line_n st + 1"
          "fst (periodic_flush cfg env p ?st1)"
          using periodic_flush_rows [of cfg env p ?st1] by (auto simp: append_log_row_line_n)
        have len: "int (length (log_rows ?st')) \<le> max_log_symbols cfg"
          using st' append_log_row_length [OF Cons.prems(1)] by simp
        have "suffix (log_rows ?st1) (log_rows st @ log_message_format env (line_n st) m)"
          using append_log_row_suffix [OF Cons.prems(1)] .
        moreover have "suffix (log_rows st @ log_message_format env (line_n st) m)
                              (full @ log_message_format env (line_n st) m)"
          using Cons.prems(3) by (simp add: suffix_def) 
        ultimately have suf: "suffix (log_rows ?st') (full @ log_message_format env (line_n st) m)"
          using st' suffix_order.trans by metis
        from Cons.IH [OF Cons.prems(1) len suf]
        show ?thesis using Some Q_LogRecord False st'
          by (cases "periodic_flush cfg env p ?st1")
             (auto simp: logs_to_message_iteration_def split_beta)
      qed
    next
      case Q_None
      then show ?thesis using Some Cons.prems
        by (simp add: logs_to_message_iteration_def terminal_flush_returns)
    next
      case Q_KeyboardInterrupt
      then show ?thesis using Some Cons.prems
        by (simp add: logs_to_message_iteration_def terminal_flush_returns)
    next
      case (Q_Other v)
      then show ?thesis using Some Cons.prems
        by (simp add: logs_to_message_iteration_def terminal_flush_returns)
    qed
  qed
qed

text \<open>
  C2, as claimed: after every append the buffer holds at most \<^verbatim>\<open>max_log_symbols\<close>
  characters, the last ones. With a cap of 0 the slice \<^verbatim>\<open>log_rows[-0:]\<close> is the whole
  string: nothing is removed and the buffer exceeds the cap.
\<close>

theorem log_buffer_cap_zero_counterexample:
  "max_log_symbols cfg_cap0 = 0
   \<and> log_rows (append_log_row cfg_cap0 env0 (relay_initial 0) ''ab'') = ''ab|''
   \<and> int (length (log_rows (append_log_row cfg_cap0 env0 (relay_initial 0) ''ab'')))
       > max_log_symbols cfg_cap0"
  by (simp add: append_log_row_def slice_from_neg_def env0_def relay_initial_def cfg0_def
      cfg_cap0_def Let_def)

text \<open>
  C2, amended: for a positive cap. After an append, a buffer longer than the cap is cut
  to exactly its last cap characters; at the end of every pass of the relay loop (after
  any number of polls, from the initial state) the buffer holds at most cap characters
  and is a suffix of the full accumulated text.
\<close>

theorem log_buffer_cap_positive:
  assumes "0 < max_log_symbols cfg"
  shows "(int (length (log_rows st @ log_message_format env (line_n st) entry))
            > max_log_symbols cfg \<longrightarrow>
          log_rows (append_log_row cfg env st entry)
            = drop (length (log_rows st @ log_message_format env (line_n st) entry)
                    - nat (max_log_symbols cfg))
                (log_rows st @ log_message_format env (line_n st) entry)
          \<and> int (length (log_rows (append_log_row cfg env st entry))) = max_log_symbols cfg)
       \<and> int (length (log_rows (fst (snd (logs_to_message_loop cfg env (relay_initial t0) polls)))))
           \<le> max_log_symbols cfg
       \<and> suffix (log_rows (fst (snd (logs_to_message_loop cfg env (relay_initial t0) polls))))
           (accumulated_rows env [] 1 polls)"
proof -
  have init: "int (length (log_rows (relay_initial t0))) \<le> max_log_symbols cfg"
    "suffix (log_rows (relay_initial t0)) []" "line_n (relay_initial t0) = 1"
    using assms by (simp_all add: relay_initial_def)
  from loop_invariant [OF assms init(1) init(2), of env polls] init(3)
  have loop: "int (length (log_rows (fst (snd (logs_to_message_loop cfg env (relay_initial t0) polls)))))
           \<le> max_log_symbols cfg
       \<and> suffix (log_rows (fst (snd (logs_to_message_loop cfg env (relay_initial t0) polls))))
           (accumulated_rows env [] 1 polls)"
    by simp
  show ?thesis
    using loop append_log_row_exact [OF assms, of st env entry]
      append_log_row_rows [OF assms, of env st entry]
    by simp
qed

theorem log_buffer_cap_positive_witness:
  "0 < max_log_symbols cfg0
   \<and> log_rows (fst (snd (logs_to_message_loop cfg0 env0 (relay_initial 0) polls_two_records)))
       = ''c|de|''
   \<and> accumulated_rows env0 [] 1 polls_two_records = ''abc|de|''
   \<and> max_log_symbols cfg0 = 5"
  using log_buffer_cap_positive [of cfg0 "relay_initial 0" env0 "''de''" 0 polls_two_records]
  by (simp add: polls_two_records_def logs_to_message_iteration_def periodic_flush_returns
      terminal_flush_returns append_log_row_def slice_from_neg_def
      cfg0_def env0_def relay_initial_def Let_def split_beta)


section \<open>Properties of artifact delivery\<close>

lemma sent_documents_append: "sent_documents (xs @ ys) = sent_documents xs @ sent_documents ys"
  by (induction xs rule: sent_documents.induct) auto

lemma sent_documents_attempts:
  "sent_documents (attempts cfg file r outs) = replicate (length outs) file"
proof (induction outs arbitrary: r)
  case Nil then show ?case by simp
next
  case (Cons out outs)
  then show ?case by (cases out) (simp_all add: sent_documents_append)
qed

lemma send_file_loop_trace:
  "r < MAX_FILES_RETRIES \<Longrightarrow>
   \<exists>n. 1 \<le> n \<and> r + n \<le> MAX_FILES_RETRIES
     \<and> (\<forall>j. j < n - 1 \<longrightarrow> send (k + j) \<noteq> Sent)
     \<and> (send (k + n - 1) = Sent \<or> r + n = MAX_FILES_RETRIES)
     \<and> send_file_loop cfg send fl k r =
         (k + n, attempts cfg fl r (map send [k..<k + n])
                 @ (if send (k + n - 1) = Sent then [] else [Logging_error ''Max retries reached!'']))"
proof (induction cfg send fl k r rule: send_file_loop.induct)
  case (1 cfg send fl k r)
  show ?case
  proof (cases "send k")
    case Sent
    then have "send_file_loop cfg send fl k r =
        (k + 1, attempts cfg fl r (map send [k..<k + 1]) @
                (if send (k + 1 - 1) = Sent then [] else [Logging_error ''Max retries reached!'']))"
      by (subst send_file_loop.simps) simp
    with Sent "1.prems" show ?thesis 
      by (intro exI [of _ 1]) simp
  next
    case (Send_failed e)
    show ?thesis
    proof (cases "r + 1 \<ge> MAX_FILES_RETRIES")
      case True
      with Send_failed have "send_file_loop cfg send fl k r =
        (k + 1, attempts cfg fl r (map send [k..<k + 1]) @
                (if send (k + 1 - 1) = Sent then [] else [Logging_error ''Max retries reached!'']))"
        by (subst send_file_loop.simps) (simp add: Let_def)
      with Send_failed True "1.prems" show ?thesis
        by (intro exI [of _ 1]) simp
    next
      case False
      then have lt: "r + 1 < MAX_FILES_RETRIES" by simp
      from "1.IH" [OF Send_failed refl] False lt
      obtain n where n: "1 \<le> n" "r + 1 + n \<le> MAX_FILES_RETRIES"
        "\<forall>j. j < n - 1 \<longrightarrow> send (Suc k + j) \<noteq> Sent"
        "send (Suc k + n - 1) = Sent \<or> r + 1 + n = MAX_FILES_RETRIES"
        "send_file_loop cfg send fl (Suc k) (r + 1) =
           (Suc k + n, attempts cfg fl (r + 1) (map send [Suc k..<Suc k + n])
                 @ (if send (Suc k + n - 1) = Sent then [] else [Logging_error ''Max retries reached!'']))"
        by auto
      have up: "[k..<k + (n + 1)] = k # [Suc k..<Suc k + n]"
        by (simp add: upt_conv_Cons)
      have att: "attempts cfg fl r (map send [k..<k + (n + 1)]) =
          attempt cfg fl (r + 1) (send k) @ attempts cfg fl (r + 1) (map send [Suc k..<Suc k + n])"
        by (simp only: up list.map attempts.simps)
      have unfold: "send_file_loop cfg send fl k r =
          (case send_file_loop cfg send fl (Suc k) (r + 1) of
             (k', acts') \<Rightarrow> (k', attempt cfg fl (r + 1) (send k) @ acts'))"
        using Send_failed False by (subst send_file_loop.simps) (simp add: Let_def)
      have step: "send_file_loop cfg send fl k r =
          (k + (n + 1), attempts cfg fl r (map send [k..<k + (n + 1)])
                 @ (if send (k + (n + 1) - 1) = Sent then [] else [Logging_error ''Max retries reached!'']))"
        unfolding unfold n(5) att by simp
      have all: "\<forall>j. j < (n + 1) - 1 \<longrightarrow> send (k + j) \<noteq> Sent"
      proof (intro allI impI)
        fix j assume "j < (n + 1) - 1"
        show "send (k + j) \<noteq> Sent"
        proof (cases j)
          case 0 then show ?thesis using Send_failed by simp
        next
          case (Suc j')
          then have "j' < n - 1" using \<open>j < (n + 1) - 1\<close> by simp
          with n(3) Suc show ?thesis by simp
        qed
      qed
      show ?thesis
        using n(1,2,4) step all
        by (intro exI [of _ "n + 1"]) (simp del: upt_Suc)
    qed
  qed
qed

lemma send_file_loop_first:
  "\<exists>n. 1 \<le> n \<and> n \<le> MAX_FILES_RETRIES
     \<and> fst (send_file_loop cfg send fl k 0) = k + n
     \<and> sent_documents (snd (send_file_loop cfg send fl k 0)) = replicate n fl"
proof -
  have "0 < MAX_FILES_RETRIES" by (simp add: MAX_FILES_RETRIES_def)
  from send_file_loop_trace [OF this, of send k cfg fl]
  obtain n where n: "1 \<le> n" "n \<le> MAX_FILES_RETRIES"
    "send_file_loop cfg send fl k 0 =
         (k + n, attempts cfg fl 0 (map send [k..<k + n])
                 @ (if send (k + n - 1) = Sent then [] else [Logging_error ''Max retries reached!'']))"
    by auto
  show ?thesis
    using n(1,2) unfolding n(3)
    by (intro exI [of _ n]) (simp add: sent_documents_append sent_documents_attempts)
qed

lemma send_all_files_sent:
  "\<exists>ns. length ns = length files
     \<and> (\<forall>n\<in>set ns. 1 \<le> n \<and> n \<le> MAX_FILES_RETRIES)
     \<and> sent_documents (snd (send_all_files cfg send k files)) = concat (map2 replicate ns files)
     \<and> fst (send_all_files cfg send k files) = k + sum_list ns"
proof (induction files arbitrary: k)
  case Nil
  show ?case by (intro exI [of _ "[]"]) simp
next
  case (Cons f fs)
  obtain n where n: "1 \<le> n" "n \<le> MAX_FILES_RETRIES"
    "fst (send_file_loop cfg send f k 0) = k + n"
    "sent_documents (snd (send_file_loop cfg send f k 0)) = replicate n f"
    using send_file_loop_first [of cfg send f k] by auto
  obtain ns where ns: "length ns = length fs" "\<forall>m\<in>set ns. 1 \<le> m \<and> m \<le> MAX_FILES_RETRIES"
    "sent_documents (snd (send_all_files cfg send (k + n) fs)) = concat (map2 replicate ns fs)"
    "fst (send_all_files cfg send (k + n) fs) = k + n + sum_list ns"
    using Cons.IH [of "k + n"] by auto
  show ?case
    using n ns
    by (intro exI [of _ "n # ns"])
       (cases "send_file_loop cfg send f k 0"; cases "send_all_files cfg send (k + n) fs";
        simp add: sent_documents_append)
qed

lemma send_all_files_append:
  "snd (send_all_files cfg send k (fs1 @ fs2)) =
     snd (send_all_files cfg send k fs1)
     @ snd (send_all_files cfg send (fst (send_all_files cfg send k fs1)) fs2)
   \<and> fst (send_all_files cfg send k (fs1 @ fs2)) =
     fst (send_all_files cfg send (fst (send_all_files cfg send k fs1)) fs2)"
proof (induction fs1 arbitrary: k)
  case Nil
  show ?case by simp
next
  case (Cons f fs)
  show ?case
    using Cons.IH [of "fst (send_file_loop cfg send f k 0)"]
    by (simp add: split_beta)
qed

text \<open>
  C5. Delivery of the files of the result list, from any number \<open>k\<close> of earlier sends
  and whatever the sends do. For one file: the retry loop makes \<open>n\<close> attempts with
  \<open>1 \<le> n \<le> MAX_FILES_RETRIES\<close>, every attempt but the last fails, each failed attempt
  ends with the wait of \<^verbatim>\<open>RESEND_FILE_AFTER_TIME\<close>, and when the last attempt fails too
  (the bound is exhausted) the error is logged and the loop ends. For the list: the files
  are attempted in list order, each at least once and at most \<^verbatim>\<open>MAX_FILES_RETRIES\<close>
  times; and delivery of a list \<open>fs1 @ fs2\<close> is delivery of \<open>fs1\<close> followed by delivery
  of \<open>fs2\<close>, whatever happened to the files of \<open>fs1\<close>.
\<close>

theorem bounded_delivery_retry:
  "(\<exists>n. 1 \<le> n \<and> n \<le> MAX_FILES_RETRIES
       \<and> (\<forall>j. j < n - 1 \<longrightarrow> send (k + j) \<noteq> Sent)
       \<and> (send (k + n - 1) = Sent \<or> n = MAX_FILES_RETRIES)
       \<and> send_file_loop cfg send fl k 0 =
           (k + n, attempts cfg fl 0 (map send [k..<k + n])
                   @ (if send (k + n - 1) = Sent then []
                      else [Logging_error ''Max retries reached!''])))
   \<and> (\<exists>ns. length ns = length files
       \<and> (\<forall>n\<in>set ns. 1 \<le> n \<and> n \<le> MAX_FILES_RETRIES)
       \<and> sent_documents (snd (send_all_files cfg send k files)) = concat (map2 replicate ns files)
       \<and> fst (send_all_files cfg send k files) = k + sum_list ns)
   \<and> snd (send_all_files cfg send k (fs1 @ fs2)) =
       snd (send_all_files cfg send k fs1)
       @ snd (send_all_files cfg send (fst (send_all_files cfg send k fs1)) fs2)"
proof -
  have "0 < MAX_FILES_RETRIES" by (simp add: MAX_FILES_RETRIES_def)
  from send_file_loop_trace [OF this, of send k cfg fl]
  have one: "\<exists>n. 1 \<le> n \<and> n \<le> MAX_FILES_RETRIES
       \<and> (\<forall>j. j < n - 1 \<longrightarrow> send (k + j) \<noteq> Sent)
       \<and> (send (k + n - 1) = Sent \<or> n = MAX_FILES_RETRIES)
       \<and> send_file_loop cfg send fl k 0 =
           (k + n, attempts cfg fl 0 (map send [k..<k + n])
                   @ (if send (k + n - 1) = Sent then []
                      else [Logging_error ''Max retries reached!'']))"
    by simp
  show ?thesis
    using one send_all_files_sent [of files cfg send k] send_all_files_append [of cfg send k fs1 fs2]
    by (intro conjI) (assumption, assumption, elim conjE, assumption)
qed

theorem bounded_delivery_retry_witness:
  "send_all_files cfg0 send_second_fails_twice 0 [''/t/a'', ''/t/b'', ''/t/c''] =
     (5, [Logging_info ''Sending a'', Sleep 1, Send_document ''/t/a'',
          Logging_info ''Sending b'', Sleep 1, Send_document ''/t/b'',
          Logging_warning ''Error sending file: timeout'',
          Logging_info_retrying RESEND_FILE_AFTER_TIME 1, Sleep RESEND_FILE_AFTER_TIME,
          Sleep 1, Send_document ''/t/b'',
          Logging_warning ''Error sending file: timeout'',
          Logging_info_retrying RESEND_FILE_AFTER_TIME 2, Sleep RESEND_FILE_AFTER_TIME,
          Sleep 1, Send_document ''/t/b'',
          Logging_info ''Sending c'', Sleep 1, Send_document ''/t/c''])"
  using bounded_delivery_retry [of send_second_fails_twice 0 cfg0 "''/t/a''" "[''/t/a'', ''/t/b'', ''/t/c'']" "[]" "[]"]
  by (simp add: send_file_loop.simps send_second_fails_twice_def MAX_FILES_RETRIES_def
      basename_def cfg0_def Let_def)

text \<open>
  When every attempt for the second file fails, the error is logged after the third
  attempt and the third file is sent.
\<close>

lemma delivery_continues_after_exhausted_retries:
  "sent_documents (snd (send_all_files cfg0 send_second_file_fails 0 [''/t/a'', ''/t/b'', ''/t/c'']))
     = [''/t/a'', ''/t/b'', ''/t/b'', ''/t/b'', ''/t/c'']
   \<and> Logging_error ''Max retries reached!''
       \<in> set (snd (send_all_files cfg0 send_second_file_fails 0 [''/t/a'', ''/t/b'', ''/t/c'']))"
  by (simp add: send_file_loop.simps send_second_file_fails_def MAX_FILES_RETRIES_def
      basename_def cfg0_def Let_def)

section \<open>Properties of the supervisor\<close>

lemma queue_puts_append: "queue_puts (xs @ ys) = queue_puts xs @ queue_puts ys"
  by (induction xs rule: queue_puts.induct) auto

lemma queue_puts_attempts: "queue_puts (attempts cfg fl r outs) = []"
proof (induction outs arbitrary: r)
  case Nil then show ?case by simp
next
  case (Cons out outs)
  then show ?case by (cases out) (simp_all add: queue_puts_append)
qed

lemma queue_puts_send_file_loop: "queue_puts (snd (send_file_loop cfg send fl k 0)) = []"
proof -
  have "0 < MAX_FILES_RETRIES" by (simp add: MAX_FILES_RETRIES_def)
  from send_file_loop_trace [OF this, of send k cfg fl]
  obtain n where "send_file_loop cfg send fl k 0 =
         (k + n, attempts cfg fl 0 (map send [k..<k + n])
                 @ (if send (k + n - 1) = Sent then [] else [Logging_error ''Max retries reached!'']))"
    by auto
  then show ?thesis by (simp add: queue_puts_append queue_puts_attempts)
qed

lemma queue_puts_send_all_files: "queue_puts (snd (send_all_files cfg send k files)) = []"
proof (induction files arbitrary: k)
  case Nil show ?case by simp
next
  case (Cons f fs)
  show ?case
    using Cons.IH [of "fst (send_file_loop cfg send f k 0)"] queue_puts_send_file_loop [of cfg send f k]
    by (simp add: split_beta queue_puts_append)
qed

lemma terminate_wait_returns:
  "\<exists>p\<in>set polls. \<not> fst p \<or> snd p > CHILD_PROCESS_MAX_TERMINATE_TIME \<Longrightarrow>
   \<exists>acts. terminate_wait ke polls = Some acts \<and> queue_puts acts = [] \<and> sent_documents acts = []"
proof (induction polls)
  case Nil then show ?case by simp
next
  case (Cons p ps)
  obtain a t where p: "p = (a, t)" by (cases p)
  show ?case
  proof (cases "\<not> a \<or> t > CHILD_PROCESS_MAX_TERMINATE_TIME")
    case True
    then show ?thesis using p by (cases ke) auto
  next
    case False
    with Cons.prems p have "\<exists>p\<in>set ps. \<not> fst p \<or> snd p > CHILD_PROCESS_MAX_TERMINATE_TIME" by auto
    from Cons.IH [OF this] show ?thesis using False p by auto
  qed
qed

lemma wait_for_child_prefix:
  "wait_for_child cfg send (replicate n (None, False) @ (Some v, b) # rest) =
     Some (case check_return_data v of
             Inl r \<Rightarrow> (Some r, replicate n (Sleep (1 / 10)))
           | Inr files \<Rightarrow> (None, replicate n (Sleep (1 / 10))
                                  @ snd (send_all_files cfg send 0 files) @ [Logging_info ''Finished'']))"
  by (induction n) (auto split: sum.splits)

lemma wait_for_child_returns:
  "\<exists>p\<in>set polls. fst p \<noteq> None \<or> snd p \<Longrightarrow> \<exists>r acts. wait_for_child cfg send polls = Some (r, acts)"
proof (induction polls)
  case Nil then show ?case by simp
next
  case (Cons p ps)
  obtain q i where p: "p = (q, i)" by (cases p)
  show ?case
  proof (cases "q \<noteq> None \<or> i")
    case True
    then show ?thesis using p by (cases q) (auto split: sum.splits)
  next
    case False
    with Cons.prems p have "\<exists>p\<in>set ps. fst p \<noteq> None \<or> snd p" by auto
    from Cons.IH [OF this] show ?thesis using False p by auto
  qed
qed

lemma except_handlers_returns:
  assumes "os_kill_error env \<noteq> None
     \<or> (\<exists>p\<in>set (terminate_polls env). \<not> fst p \<or> snd p > CHILD_PROCESS_MAX_TERMINATE_TIME)"
  shows "\<exists>h. except_handlers env vars r = Some h
     \<and> sent_documents h = []
     \<and> queue_puts h = (case r of None \<Rightarrow> [] | Some (Raise_Exception m) \<Rightarrow> [Q_Other m]
                        | Some (Raise_KeyboardInterrupt m) \<Rightarrow> [Q_KeyboardInterrupt])"
proof (cases r)
  case None
  then show ?thesis by (simp add: except_handlers_def)
next
  case (Some e)
  show ?thesis
  proof (cases e)
    case (Raise_Exception m)
    then show ?thesis using Some by (simp add: except_handlers_def)
  next
    case (Raise_KeyboardInterrupt m)
    show ?thesis
    proof (cases "child_process vars")
      case False
      then show ?thesis using Some Raise_KeyboardInterrupt by (simp add: except_handlers_def)
    next
      case True
      show ?thesis
      proof (cases "os_kill_error env")
        case (Some err)
        then show ?thesis using \<open>r = Some e\<close> Raise_KeyboardInterrupt True
          by (simp add: except_handlers_def)
      next
        case None
        with assms have "\<exists>p\<in>set (terminate_polls env). \<not> fst p \<or> snd p > CHILD_PROCESS_MAX_TERMINATE_TIME"
          by simp
        from terminate_wait_returns [OF this, of "child_kill_error env"]
        obtain acts where "terminate_wait (child_kill_error env) (terminate_polls env) = Some acts"
          "queue_puts acts = []" "sent_documents acts = []" by auto
        then show ?thesis using \<open>r = Some e\<close> Raise_KeyboardInterrupt True None
          by (simp add: except_handlers_def queue_puts_append sent_documents_append)
      qed
    qed
  qed
qed

lemma queue_puts_replicate_sleep: "queue_puts (replicate n (Sleep t)) = []"
  by (induction n) auto

lemma sent_documents_replicate_sleep: "sent_documents (replicate n (Sleep t)) = []"
  by (induction n) auto

lemma after_try_all_started:
  "after_try all_started = [Internal_logging_queue_put Q_None, Join_logging_thread, Temp_dir_cleanup]"
  by (simp add: after_try_def all_started_def)

lemma process_first_value:
  assumes start: "thread_start_error env = None" "temp_dir_error env = None"
      "child_start_error env = None"
    and polls: "return_polls env = replicate n (None, False) @ (Some v, b) # rest"
    and stops: "os_kill_error env \<noteq> None
     \<or> (\<exists>p\<in>set (terminate_polls env). \<not> fst p \<or> snd p > CHILD_PROCESS_MAX_TERMINATE_TIME)"
  shows "\<exists>h. sent_documents h = []
     \<and> queue_puts h = (case check_return_data v of
                         Inr fs \<Rightarrow> []
                       | Inl (Raise_Exception m) \<Rightarrow> [Q_Other m]
                       | Inl (Raise_KeyboardInterrupt m) \<Rightarrow> [Q_KeyboardInterrupt])
     \<and> except_handlers env all_started
          (case check_return_data v of Inl r \<Rightarrow> Some r | Inr fs \<Rightarrow> None) = Some h
     \<and> lms_downloader_process cfg env =
         Some (startup_actions @ replicate n (Sleep (1 / 10))
               @ (case check_return_data v of
                    Inl r \<Rightarrow> []
                  | Inr fs \<Rightarrow> snd (send_all_files cfg (send_document env) 0 fs)
                              @ [Logging_info ''Finished''])
               @ h @ after_try all_started)"
proof -
  let ?r = "case check_return_data v of Inl r \<Rightarrow> Some r | Inr fs \<Rightarrow> None"
  from except_handlers_returns [OF stops, of all_started ?r]
  obtain h where h: "except_handlers env all_started ?r = Some h" "sent_documents h = []"
    "queue_puts h = (case ?r of None \<Rightarrow> [] | Some (Raise_Exception m) \<Rightarrow> [Q_Other m]
                        | Some (Raise_KeyboardInterrupt m) \<Rightarrow> [Q_KeyboardInterrupt])"
    by auto
  have q: "queue_puts h = (case check_return_data v of
                         Inr fs \<Rightarrow> []
                       | Inl (Raise_Exception m) \<Rightarrow> [Q_Other m]
                       | Inl (Raise_KeyboardInterrupt m) \<Rightarrow> [Q_KeyboardInterrupt])"
    using h(3) by (simp split: sum.splits)
  have tb: "try_block cfg env =
      (all_started,
       Some (?r, startup_actions @ replicate n (Sleep (1 / 10))
               @ (case check_return_data v of
                    Inl r \<Rightarrow> []
                  | Inr fs \<Rightarrow> snd (send_all_files cfg (send_document env) 0 fs)
                              @ [Logging_info ''Finished''])))"
    using start polls
    by (simp add: try_block_def wait_for_child_prefix all_started_def startup_actions_def
        split: sum.splits)
  show ?thesis
    using h(1,2) q by (intro exI [of _ h]) (simp add: lms_downloader_process_def tb)
qed

lemma startup_obs: "queue_puts startup_actions = []" "sent_documents startup_actions = []"
  "Create_temp_dir \<in> set startup_actions"
  by (simp_all add: startup_actions_def)

lemma handler_exception:
  "except_handlers env vars (Some (Raise_Exception m)) = Some h \<Longrightarrow>
   h = [Logging_error (''Error: '' @ m), Internal_logging_queue_put (Q_Other m)]"
  by (simp add: except_handlers_def)

lemma handler_interrupt:
  "except_handlers env vars (Some (Raise_KeyboardInterrupt m)) = Some h \<Longrightarrow>
   Logging_error ''Parent process was interrupted!'' \<in> set h"
  by (auto simp: except_handlers_def Let_def split: if_splits option.splits)

text \<open>
  C4, as claimed: every error value that the supervisor receives leads to the failure
  path with its reason recorded. The child puts every exception that the download raises
  on the return queue; for an instance of a subclass of \<^verbatim>\<open>Exception\<close> (here a
  \<^verbatim>\<open>ValueError\<close> with the reason "bad link") the supervisor raises the wrong-type error,
  and that text, not the reason, is what it logs and puts on the internal queue.
\<close>

theorem worker_outcome_counterexample:
  "lms_downloader_process_child (Raises_Exception_subclass ''ValueError'' ''bad link'')
     = [PyExceptionSubclass ''ValueError'' ''bad link'', PyNone]
   \<and> check_return_data (PyExceptionSubclass ''ValueError'' ''bad link'')
     = Inl (Raise_Exception (''Child process exited but returning wrong type of data: ''
                             @ class_repr ''ValueError''))
   \<and> check_return_data (PyExceptionSubclass ''ValueError'' ''bad link'')
     \<noteq> Inl (Raise_Exception ''bad link'')
   \<and> map_option queue_puts (lms_downloader_process cfg0 env_value_error)
     = Some [Q_Other (''Child process exited but returning wrong type of data: ''
                      @ class_repr ''ValueError''), Q_None]"
  by (simp add: lms_downloader_process_def try_block_def except_handlers_def after_try_def
      env_value_error_def env_list_def class_repr_def)

text \<open>
  C4, amended. When nothing fails at start and the supervisor receives the value \<open>v\<close>
  (after any number of empty polls with the interrupt event unset), it returns, cleans
  the temporary directory up last, and exactly one of five outcomes results, by the exact
  type of \<open>v\<close>: a list leads to delivery of its files in order and to normal completion
  (only the end marker is put on the internal queue); a \<^verbatim>\<open>KeyboardInterrupt\<close> leads to
  the interrupted path (interrupt marker); an instance of exactly \<^verbatim>\<open>Exception\<close> leads to
  the failure path with its own reason logged and put on the queue; \<^verbatim>\<open>None\<close> leads to
  the failure path with the no-data reason; a value of any other type that is not an
  exception leads to the failure path with the wrong-type reason that names the type.
  Nothing is said here about instances of subclasses of \<^verbatim>\<open>Exception\<close>.
\<close>

theorem worker_outcome_interpretation:
  assumes "thread_start_error env = None" "temp_dir_error env = None"
      "child_start_error env = None"
    and "return_polls env = replicate n (None, False) @ (Some v, b) # rest"
    and "os_kill_error env \<noteq> None
     \<or> (\<exists>p\<in>set (terminate_polls env). \<not> fst p \<or> snd p > CHILD_PROCESS_MAX_TERMINATE_TIME)"
  shows "\<exists>acts. lms_downloader_process cfg env = Some acts \<and> last acts = Temp_dir_cleanup
     \<and> (\<forall>files. v = PyList files \<longrightarrow>
           queue_puts acts = [Q_None] \<and> Logging_info ''Finished'' \<in> set acts
           \<and> (\<exists>ns. length ns = length files
                 \<and> (\<forall>k\<in>set ns. 1 \<le> k \<and> k \<le> MAX_FILES_RETRIES)
                 \<and> sent_documents acts = concat (map2 replicate ns files)))
     \<and> (v = PyKeyboardInterrupt \<longrightarrow>
           queue_puts acts = [Q_KeyboardInterrupt, Q_None] \<and> sent_documents acts = []
           \<and> Logging_error ''Parent process was interrupted!'' \<in> set acts)
     \<and> (\<forall>m. v = PyExceptionExact m \<longrightarrow>
           queue_puts acts = [Q_Other m, Q_None] \<and> sent_documents acts = []
           \<and> Logging_error (''Error: '' @ m) \<in> set acts)
     \<and> (v = PyNone \<longrightarrow>
           queue_puts acts = [Q_Other ''Child process exited but doesn't return any data'', Q_None]
           \<and> sent_documents acts = []
           \<and> Logging_error (''Error: '' @ ''Child process exited but doesn't return any data'')
               \<in> set acts)
     \<and> (\<forall>t. v = PyOther t \<longrightarrow>
           queue_puts acts
             = [Q_Other (''Child process exited but returning wrong type of data: '' @ class_repr t),
                Q_None]
           \<and> sent_documents acts = []
           \<and> Logging_error (''Error: '' @ ''Child process exited but returning wrong type of data: ''
                             @ class_repr t) \<in> set acts)"
proof -
  from process_first_value [OF assms, of cfg]
  obtain h where h: "sent_documents h = []"
    "queue_puts h = (case check_return_data v of
                         Inr fs \<Rightarrow> []
                       | Inl (Raise_Exception m) \<Rightarrow> [Q_Other m]
                       | Inl (Raise_KeyboardInterrupt m) \<Rightarrow> [Q_KeyboardInterrupt])"
    "except_handlers env all_started
          (case check_return_data v of Inl r \<Rightarrow> Some r | Inr fs \<Rightarrow> None) = Some h"
    "lms_downloader_process cfg env =
         Some (startup_actions @ replicate n (Sleep (1 / 10))
               @ (case check_return_data v of
                    Inl r \<Rightarrow> []
                  | Inr fs \<Rightarrow> snd (send_all_files cfg (send_document env) 0 fs)
                              @ [Logging_info ''Finished''])
               @ h @ after_try all_started)"
    by blast
  let ?acts = "startup_actions @ replicate n (Sleep (1 / 10))
               @ (case check_return_data v of
                    Inl r \<Rightarrow> []
                  | Inr fs \<Rightarrow> snd (send_all_files cfg (send_document env) 0 fs)
                              @ [Logging_info ''Finished''])
               @ h @ after_try all_started"
  have last: "last ?acts = Temp_dir_cleanup"
    by (simp add: after_try_all_started)
  have lst: "\<forall>files. v = PyList files \<longrightarrow>
           queue_puts ?acts = [Q_None] \<and> Logging_info ''Finished'' \<in> set ?acts
           \<and> (\<exists>ns. length ns = length files
                 \<and> (\<forall>k\<in>set ns. 1 \<le> k \<and> k \<le> MAX_FILES_RETRIES)
                 \<and> sent_documents ?acts = concat (map2 replicate ns files))"
  proof (intro allI impI)
    fix files assume v: "v = PyList files"
    from send_all_files_sent [of files cfg "send_document env" 0]
    obtain ns where ns: "length ns = length files"
      "\<forall>k\<in>set ns. 1 \<le> k \<and> k \<le> MAX_FILES_RETRIES"
      "sent_documents (snd (send_all_files cfg (send_document env) 0 files))
         = concat (map2 replicate ns files)"
      by blast
    have "sent_documents ?acts = concat (map2 replicate ns files)"
      using v h(1) ns(3)
      by (simp add: sent_documents_append startup_obs sent_documents_replicate_sleep
          after_try_all_started)
    moreover have "queue_puts ?acts = [Q_None]"
      using v h(2)
      by (simp add: queue_puts_append startup_obs queue_puts_replicate_sleep
          queue_puts_send_all_files after_try_all_started)
    moreover have "Logging_info ''Finished'' \<in> set ?acts" using v by simp
    ultimately show "queue_puts ?acts = [Q_None] \<and> Logging_info ''Finished'' \<in> set ?acts
           \<and> (\<exists>ns. length ns = length files
                 \<and> (\<forall>k\<in>set ns. 1 \<le> k \<and> k \<le> MAX_FILES_RETRIES)
                 \<and> sent_documents ?acts = concat (map2 replicate ns files))"
      using ns(1,2) by blast
  qed
  have ki: "v = PyKeyboardInterrupt \<longrightarrow>
           queue_puts ?acts = [Q_KeyboardInterrupt, Q_None] \<and> sent_documents ?acts = []
           \<and> Logging_error ''Parent process was interrupted!'' \<in> set ?acts"
  proof
    assume v: "v = PyKeyboardInterrupt"
    have "Logging_error ''Parent process was interrupted!'' \<in> set h"
      using h(3) v by (auto dest: handler_interrupt)
    then show "queue_puts ?acts = [Q_KeyboardInterrupt, Q_None] \<and> sent_documents ?acts = []
           \<and> Logging_error ''Parent process was interrupted!'' \<in> set ?acts"
      using v h(1,2)
      by (simp add: queue_puts_append sent_documents_append startup_obs
          queue_puts_replicate_sleep sent_documents_replicate_sleep after_try_all_started)
  qed
  have err: "\<And>m. check_return_data v = Inl (Raise_Exception m) \<Longrightarrow>
           queue_puts ?acts = [Q_Other m, Q_None] \<and> sent_documents ?acts = []
           \<and> Logging_error (''Error: '' @ m) \<in> set ?acts"
  proof -
    fix m assume c: "check_return_data v = Inl (Raise_Exception m)"
    have "h = [Logging_error (''Error: '' @ m), Internal_logging_queue_put (Q_Other m)]"
      using h(3) c by (auto dest: handler_exception)
    then show "queue_puts ?acts = [Q_Other m, Q_None] \<and> sent_documents ?acts = []
           \<and> Logging_error (''Error: '' @ m) \<in> set ?acts"
      using c
      by (simp add: queue_puts_append sent_documents_append startup_obs
          queue_puts_replicate_sleep sent_documents_replicate_sleep after_try_all_started)
  qed
  show ?thesis
    unfolding h(4)
    apply (intro exI [of _ ?acts] conjI)
          apply (rule refl)
         apply (rule last)
        apply (rule lst)
       apply (rule ki)
      apply (intro allI impI, rule err [simplified append_assoc], simp)
     apply (intro impI, rule err [simplified append_assoc], simp)
    apply (intro allI impI, rule err [simplified append_assoc], simp)
    done
qed

theorem worker_outcome_interpretation_witness:
  "\<exists>acts. lms_downloader_process cfg0 env_list = Some acts \<and> last acts = Temp_dir_cleanup
     \<and> queue_puts acts = [Q_None] \<and> Logging_info ''Finished'' \<in> set acts
     \<and> (\<exists>ns. length ns = 3 \<and> sent_documents acts = concat (map2 replicate ns [''/t/a'', ''/t/b'', ''/t/c'']))"
proof -
  have started: "thread_start_error env_list = None" "temp_dir_error env_list = None"
    "child_start_error env_list = None"
    by (simp_all add: env_list_def)
  have polls: "return_polls env_list =
      replicate (Suc 0) (None, False) @ (Some (PyList [''/t/a'', ''/t/b'', ''/t/c'']), False) # []"
    by (simp add: env_list_def)
  have stops: "os_kill_error env_list \<noteq> None
     \<or> (\<exists>p\<in>set (terminate_polls env_list). \<not> fst p \<or> snd p > CHILD_PROCESS_MAX_TERMINATE_TIME)"
    by (simp add: env_list_def CHILD_PROCESS_MAX_TERMINATE_TIME_def)
  from worker_outcome_interpretation [OF started polls stops, of cfg0]
  obtain acts where ret: "lms_downloader_process cfg0 env_list = Some acts"
    and cleanup: "last acts = Temp_dir_cleanup"
    and lst: "\<forall>files. PyList [''/t/a'', ''/t/b'', ''/t/c''] = PyList files \<longrightarrow>
           queue_puts acts = [Q_None] \<and> Logging_info ''Finished'' \<in> set acts
           \<and> (\<exists>ns. length ns = length files
                 \<and> (\<forall>k\<in>set ns. 1 \<le> k \<and> k \<le> MAX_FILES_RETRIES)
                 \<and> sent_documents acts = concat (map2 replicate ns files))"
    by (elim exE conjE) (rule that, assumption+)
  from lst [rule_format, OF refl]
  obtain ns where fin: "queue_puts acts = [Q_None]" "Logging_info ''Finished'' \<in> set acts"
    "length ns = length [''/t/a'', ''/t/b'', ''/t/c'']"
    "sent_documents acts = concat (map2 replicate ns [''/t/a'', ''/t/b'', ''/t/c''])"
    by (elim exE conjE) (rule that, assumption+)
  have "length ns = 3" using fin(3) by simp
  with fin(4) have "\<exists>ns. length ns = 3
      \<and> sent_documents acts = concat (map2 replicate ns [''/t/a'', ''/t/b'', ''/t/c''])"
    by (intro exI [of _ ns] conjI)
  with ret cleanup fin(1,2) show ?thesis
    by (intro exI [of _ acts] conjI)
qed

text \<open>
  C9. Whenever the waiting loop sees a value on the return queue or the interrupt event
  set (and, for the interrupt path, the child is seen to terminate or the grace time to
  pass), the supervisor returns, on every path: success, worker error, wrong or absent
  data, interrupt, and failure to start the child. If the temporary directory was
  created, its cleanup is the last action; if it was not (the thread or the directory
  could not be created), there is nothing to clean up and no cleanup.
\<close>

theorem temp_dir_cleanup_on_every_path:
  assumes "\<exists>p\<in>set (return_polls env). fst p \<noteq> None \<or> snd p"
    and "os_kill_error env \<noteq> None
     \<or> (\<exists>p\<in>set (terminate_polls env). \<not> fst p \<or> snd p > CHILD_PROCESS_MAX_TERMINATE_TIME)"
  shows "\<exists>acts. lms_downloader_process cfg env = Some acts
     \<and> (thread_start_error env = None \<and> temp_dir_error env = None \<longrightarrow>
          Create_temp_dir \<in> set acts \<and> last acts = Temp_dir_cleanup)
     \<and> (thread_start_error env \<noteq> None \<or> temp_dir_error env \<noteq> None \<longrightarrow>
          Create_temp_dir \<notin> set acts \<and> Temp_dir_cleanup \<notin> set acts)"
proof (cases "thread_start_error env")
  case (Some e)
  then show ?thesis
    by (simp add: lms_downloader_process_def try_block_def except_handlers_def after_try_def)
next
  case None
  note thread = None
  show ?thesis
  proof (cases "temp_dir_error env")
    case (Some e)
    then show ?thesis using thread
      by (simp add: lms_downloader_process_def try_block_def except_handlers_def after_try_def)
  next
    case None
    note tmp = None
    show ?thesis
    proof (cases "child_start_error env")
      case (Some e)
      then show ?thesis using thread tmp
        by (simp add: lms_downloader_process_def try_block_def except_handlers_def after_try_def)
    next
      case None
      from wait_for_child_returns [OF assms(1), of cfg "send_document env"]
      obtain r wacts where w: "wait_for_child cfg (send_document env) (return_polls env) = Some (r, wacts)"
        by blast
      from except_handlers_returns [OF assms(2), of all_started r]
      obtain h where h: "except_handlers env all_started r = Some h" by blast
      show ?thesis using thread tmp None w h
        by (simp add: lms_downloader_process_def try_block_def after_try_def all_started_def)
    qed
  qed
qed

theorem temp_dir_cleanup_on_every_path_witness:
  "\<exists>acts. lms_downloader_process cfg0 env_interrupt = Some acts
     \<and> Create_temp_dir \<in> set acts \<and> last acts = Temp_dir_cleanup"
  using temp_dir_cleanup_on_every_path [of env_interrupt cfg0]
  by (simp add: env_interrupt_def env_list_def CHILD_PROCESS_MAX_TERMINATE_TIME_def)

text \<open>
  C10. The child puts an exception of a strict subclass of \<^verbatim>\<open>Exception\<close> on the return
  queue as it is. The supervisor re-raises a returned error only when its type is exactly
  \<^verbatim>\<open>Exception\<close>; for an instance of a strict subclass it raises the wrong-type error
  instead, and the job ends on the error path: what is logged and put on the internal
  queue is the wrong-type text with the name of the class, in which the reason \<open>m\<close> of
  the worker does not occur.
\<close>

theorem exception_subclass_not_recognised:
  assumes "thread_start_error env = None" "temp_dir_error env = None"
      "child_start_error env = None"
    and "return_polls env = replicate n (None, False) @ (Some (PyExceptionSubclass c m), b) # rest"
  shows "lms_downloader_process_child (Raises_Exception_subclass c m) = [PyExceptionSubclass c m, PyNone]
     \<and> check_return_data (PyExceptionExact m) = Inl (Raise_Exception m)
     \<and> check_return_data (PyExceptionSubclass c m)
         = Inl (Raise_Exception (''Child process exited but returning wrong type of data: ''
                                 @ class_repr c))
     \<and> lms_downloader_process cfg env =
         Some (startup_actions @ replicate n (Sleep (1 / 10))
               @ [Logging_error (''Error: '' @ ''Child process exited but returning wrong type of data: ''
                                 @ class_repr c),
                  Internal_logging_queue_put
                    (Q_Other (''Child process exited but returning wrong type of data: ''
                              @ class_repr c)),
                  Internal_logging_queue_put Q_None, Join_logging_thread, Temp_dir_cleanup])"
  using assms
  by (simp add: lms_downloader_process_def try_block_def wait_for_child_prefix
      except_handlers_def after_try_def startup_actions_def)

theorem exception_subclass_not_recognised_witness:
  "lms_downloader_process cfg0 env_value_error =
         Some (startup_actions
               @ [Sleep (1 / 10),
                  Logging_error (''Error: '' @ ''Child process exited but returning wrong type of data: ''
                                 @ class_repr ''ValueError''),
                  Internal_logging_queue_put
                    (Q_Other (''Child process exited but returning wrong type of data: ''
                              @ class_repr ''ValueError'')),
                  Internal_logging_queue_put Q_None, Join_logging_thread, Temp_dir_cleanup])"
  using exception_subclass_not_recognised
          [of env_value_error "Suc 0" "''ValueError''" "''bad link''" False "[]" cfg0]
  by (simp add: env_value_error_def env_list_def)

end
